theory Spec2Isabelle
  imports Complex_Main "HOL-Library.List_Lexorder" "HOL-Library.Product_Lexorder"
    "HOL-Library.Countable" "HOL-Library.AList"
begin

section \<open>Python strings\<close>

text \<open>
  A Python \<open>str\<close> is a sequence of Unicode code points, so it is modelled as a list of
  natural numbers (the suit symbols are single code points beyond ASCII, and \<open>card[-1]\<close>
  must pick one of them whole). Program constants are written as HOL string literals and
  converted by \<open>pstr\<close>. Lists of numbers are ordered lexicographically, which is Python's
  ordering of strings.

  Scope of the string model: \<open>str.strip\<close> uses Python's full whitespace table; the case
  mappings \<open>upper\<close>/\<open>lower\<close> and the digit tests (the regex digit class, \<open>isdigit\<close>) are modelled on the ASCII
  range, every other code point being left unchanged (respectively not a digit). The four suit
  symbols have no case mapping in Unicode.
\<close>

type_synonym pystr = "nat list"

definition pstr :: "string \<Rightarrow> pystr" where
  "pstr s = map of_char s"

definition spade :: nat where "spade = 9824"
definition heart :: nat where "heart = 9829"
definition diamond :: nat where "diamond = 9830"
definition club :: nat where "club = 9827"

definition isspace :: "nat \<Rightarrow> bool" where
  "isspace c = ((9 \<le> c \<and> c \<le> 13) \<or> (28 \<le> c \<and> c \<le> 32) \<or> c = 133 \<or> c = 160 \<or> c = 5760
     \<or> (8192 \<le> c \<and> c \<le> 8202) \<or> c = 8232 \<or> c = 8233 \<or> c = 8239 \<or> c = 8287 \<or> c = 12288)"

definition strip :: "pystr \<Rightarrow> pystr" where
  "strip s = rev (dropWhile isspace (rev (dropWhile isspace s)))"

definition upper_char :: "nat \<Rightarrow> nat" where
  "upper_char c = (if 97 \<le> c \<and> c \<le> 122 then c - 32 else c)"

definition lower_char :: "nat \<Rightarrow> nat" where
  "lower_char c = (if 65 \<le> c \<and> c \<le> 90 then c + 32 else c)"

definition upper :: "pystr \<Rightarrow> pystr" where
  "upper s = map upper_char s"

definition lower :: "pystr \<Rightarrow> pystr" where
  "lower s = map lower_char s"

definition startswith :: "pystr \<Rightarrow> pystr \<Rightarrow> bool" where
  "startswith s p = (take (length p) s = p)"

definition endswith :: "pystr \<Rightarrow> pystr \<Rightarrow> bool" where
  "endswith s p = (length p \<le> length s \<and> drop (length s - length p) s = p)"

text \<open>\<open>w in s\<close> for strings: \<open>w\<close> occurs in \<open>s\<close> as a contiguous substring.\<close>

fun contains :: "pystr \<Rightarrow> pystr \<Rightarrow> bool" where
  "contains [] w = (w = [])"
| "contains (c # cs) w = (startswith (c # cs) w \<or> contains cs w)"

text \<open>\<open>s.replace(c, '')\<close> for a one-character \<open>c\<close>.\<close>

definition remove_char :: "nat \<Rightarrow> pystr \<Rightarrow> pystr" where
  "remove_char c s = filter (\<lambda>x. x \<noteq> c) s"

definition isdigit :: "nat \<Rightarrow> bool" where
  "isdigit c = (48 \<le> c \<and> c \<le> 57)"

text \<open>
  The first element of \<open>re.findall\<close> for the pattern digits, optional dot, optional digits:
  the first match starts at the first digit, takes the
  longest run of digits, a dot when one follows, and the digits after it. \<open>None\<close> when the
  list of matches is empty.
\<close>

definition first_number :: "pystr \<Rightarrow> pystr option" where
  "first_number s =
     (let r = dropWhile (\<lambda>c. \<not> isdigit c) s in
      if r = [] then None
      else (case dropWhile isdigit r of
              c # r2 \<Rightarrow> if c = 46 then Some (takeWhile isdigit r @ [46] @ takeWhile isdigit r2)
                        else Some (takeWhile isdigit r)
            | [] \<Rightarrow> Some (takeWhile isdigit r)))"

section \<open>Python floats\<close>

text \<open>
  A float is its exact value, an infinity or NaN. Rounding to binary64 is not modelled;
  overflow to an infinity is (\<open>float_max_bound\<close> is the least magnitude that rounds to it).
  Comparisons with NaN are false, as in Python.
\<close>

datatype pyfloat = Fin rat | PInf | NInf | NaN

fun fl_less :: "pyfloat \<Rightarrow> pyfloat \<Rightarrow> bool" where
  "fl_less NaN _ = False"
| "fl_less _ NaN = False"
| "fl_less (Fin a) (Fin b) = (a < b)"
| "fl_less (Fin a) PInf = True"
| "fl_less (Fin a) NInf = False"
| "fl_less PInf _ = False"
| "fl_less NInf (Fin b) = True"
| "fl_less NInf PInf = True"
| "fl_less NInf NInf = False"

fun fl_le :: "pyfloat \<Rightarrow> pyfloat \<Rightarrow> bool" where
  "fl_le NaN _ = False"
| "fl_le _ NaN = False"
| "fl_le a b = (a = b \<or> fl_less a b)"

definition float_max_bound :: rat where
  "float_max_bound = 2 ^ 1024 - 2 ^ 970"

definition mk_float :: "rat \<Rightarrow> pyfloat" where
  "mk_float q = (if float_max_bound \<le> q then PInf
                 else if q \<le> - float_max_bound then NInf else Fin q)"

text \<open>
  The digits of a \<open>digitpart\<close> of Python's float grammar: a digit, then digits each
  optionally preceded by one underscore. Returns the digits read and the rest.
\<close>

fun more_digits :: "pystr \<Rightarrow> pystr \<Rightarrow> pystr \<times> pystr" where
  "more_digits acc [] = (acc, [])"
| "more_digits acc [c] = (if isdigit c then (acc @ [c], []) else (acc, [c]))"
| "more_digits acc (c # d # ds) =
     (if isdigit c then more_digits (acc @ [c]) (d # ds)
      else if c = 95 \<and> isdigit d then more_digits (acc @ [d]) ds
      else (acc, c # d # ds))"

definition digitpart :: "pystr \<Rightarrow> pystr \<times> pystr" where
  "digitpart s = (case s of [] \<Rightarrow> ([], [])
                  | c # cs \<Rightarrow> if isdigit c then more_digits [c] cs else ([], s))"

definition dec_val :: "pystr \<Rightarrow> nat" where
  "dec_val ds = foldl (\<lambda>a c. 10 * a + (c - 48)) 0 ds"

text \<open>The exponent part: empty, or \<open>e\<close>/\<open>E\<close>, an optional sign and a non-empty digitpart.\<close>

definition exponent :: "pystr \<Rightarrow> int option" where
  "exponent s =
     (case s of [] \<Rightarrow> Some 0
      | e # r \<Rightarrow>
          if e = 101 \<or> e = 69 then
            (let neg = (r \<noteq> [] \<and> hd r = 45);
                 r1 = (if r \<noteq> [] \<and> (hd r = 45 \<or> hd r = 43) then tl r else r);
                 (ds, r2) = digitpart r1
             in if ds = [] \<or> r2 \<noteq> [] then None
                else Some (if neg then - int (dec_val ds) else int (dec_val ds)))
          else None)"

definition scale10 :: "nat \<Rightarrow> int \<Rightarrow> rat" where
  "scale10 m k = (if 0 \<le> k then of_nat m * 10 ^ nat k else of_nat m / 10 ^ nat (- k))"

definition unsigned_number :: "pystr \<Rightarrow> rat option" where
  "unsigned_number s =
     (let (ip, r1) = digitpart s;
          (fp, r2) = (case r1 of [] \<Rightarrow> ([], [])
                      | c # r \<Rightarrow> if c = 46 then digitpart r else ([], r1))
      in if ip = [] \<and> fp = [] then None
         else (case exponent r2 of None \<Rightarrow> None
               | Some e \<Rightarrow> Some (scale10 (dec_val (ip @ fp)) (e - int (length fp)))))"

text \<open>
  \<open>float(s)\<close> for a string; \<open>None\<close> is \<open>ValueError\<close>. Surrounding whitespace is ignored, a
  sign may precede, and \<open>inf\<close>, \<open>infinity\<close> and \<open>nan\<close> are accepted in any letter case.
\<close>

definition float_of_str :: "pystr \<Rightarrow> pyfloat option" where
  "float_of_str s =
     (let t = strip s;
          neg = (t \<noteq> [] \<and> hd t = 45);
          u = (if t \<noteq> [] \<and> (hd t = 45 \<or> hd t = 43) then tl t else t);
          l = lower u
      in if l = pstr ''inf'' \<or> l = pstr ''infinity'' then Some (if neg then NInf else PInf)
         else if l = pstr ''nan'' then Some NaN
         else (case unsigned_number u of None \<Rightarrow> None
               | Some q \<Rightarrow> Some (mk_float (if neg then - q else q))))"

section \<open>Card tokens (ml\_pipeline.py)\<close>

text \<open>The values \<open>json.loads\<close> produces.\<close>

datatype json = JNull | JBool bool | JInt int | JFloat pyfloat | JStr pystr
  | JList "json list" | JDict "(pystr \<times> json) list"

definition card_ranks :: "pystr list" where
  "card_ranks = map pstr [''A'', ''K'', ''Q'', ''J'', ''10'']
     @ map (\<lambda>c. [of_char c]) ''23456789''"

definition card_suits :: "nat list" where
  "card_suits = [spade, heart, diamond, club]"

text \<open>The canonical grammar: a rank followed by one suit symbol.\<close>

definition canonical_card :: "pystr \<Rightarrow> bool" where
  "canonical_card s = (s \<noteq> [] \<and> butlast s \<in> set card_ranks \<and> last s \<in> set card_suits)"

text \<open>
  \<open>VALID_CARD_PATTERN.match(card)\<close> for \<open>^(A|K|Q|J|10|[2-9])[suits]$\<close>. In Python's \<open>re\<close>,
  \<open>$\<close> also matches just before a newline that ends the string.
\<close>

definition VALID_CARD_PATTERN :: "pystr \<Rightarrow> bool" where
  "VALID_CARD_PATTERN s =
     (canonical_card s \<or> (s \<noteq> [] \<and> last s = 10 \<and> canonical_card (butlast s)))"

text \<open>The dictionary \<open>suit_replacements\<close>, in insertion order.\<close>

definition suit_replacements :: "(pystr \<times> nat) list" where
  "suit_replacements =
     [(pstr ''S'', spade), (pstr ''SPADES'', spade), (pstr ''SPADE'', spade),
      (pstr ''H'', heart), (pstr ''HEARTS'', heart), (pstr ''HEART'', heart),
      (pstr ''D'', diamond), (pstr ''DIAMONDS'', diamond), (pstr ''DIAMOND'', diamond),
      (pstr ''C'', club), (pstr ''CLUBS'', club), (pstr ''CLUB'', club)]"

fun replace_suit :: "(pystr \<times> nat) list \<Rightarrow> pystr \<Rightarrow> pystr" where
  "replace_suit [] crd = crd"
| "replace_suit ((text_suit, symbol) # rest) crd =
     (if endswith crd text_suit then take (length crd - length text_suit) crd @ [symbol]
      else replace_suit rest crd)"

definition normalize_card_format :: "pystr \<Rightarrow> pystr" where
  "normalize_card_format crd0 =
     (let crd = strip (upper crd0) in
      if startswith crd (pstr ''10'') then pstr ''10'' @ drop 2 crd
      else if startswith crd (pstr ''T'') then pstr ''10'' @ drop 1 crd
      else replace_suit suit_replacements crd)"

definition value_corrections :: "(pystr \<times> pystr) list" where
  "value_corrections =
     [(pstr ''0'', pstr ''Q''), (pstr ''O'', pstr ''Q''), (pstr ''I'', pstr ''1''),
      (pstr ''L'', pstr ''1''), (pstr ''S'', pstr ''5''), (pstr ''B'', pstr ''8''),
      (pstr ''G'', pstr ''6'')]"

definition repair_card_ocr_errors :: "pystr \<Rightarrow> pystr option" where
  "repair_card_ocr_errors crd =
     (if length crd < 2 then None
      else (let value_part = butlast crd;
                suit_part = last crd;
                corrected_value = (case map_of value_corrections value_part of
                                     Some v \<Rightarrow> v | None \<Rightarrow> value_part)
            in Some (normalize_card_format (corrected_value @ [suit_part]))))"

text \<open>\<open>None\<close> is Python's \<open>None\<close>; a value that is not a string is rejected first.\<close>

definition clean_single_card :: "json \<Rightarrow> pystr option" where
  "clean_single_card v =
     (case v of
        JStr crd0 \<Rightarrow>
          (let crd1 = strip crd0 in
           if crd1 = [] \<or> length crd1 < 2 then None
           else (let crd = normalize_card_format crd1 in
                 if VALID_CARD_PATTERN crd then Some crd
                 else (case repair_card_ocr_errors crd of
                         Some repaired_card \<Rightarrow>
                           if repaired_card \<noteq> [] \<and> VALID_CARD_PATTERN repaired_card
                           then Some repaired_card else None
                       | None \<Rightarrow> None)))
      | _ \<Rightarrow> None)"

text \<open>The loop of \<open>clean_card_list\<close>; \<open>if cleaned_card\<close> holds for a non-empty string.\<close>

fun clean_cards_loop :: "json list \<Rightarrow> pystr list \<Rightarrow> pystr list" where
  "clean_cards_loop [] cleaned_cards = cleaned_cards"
| "clean_cards_loop (crd # rest) cleaned_cards =
     (case clean_single_card crd of
        Some cleaned_card \<Rightarrow>
          if cleaned_card \<noteq> [] then clean_cards_loop rest (cleaned_cards @ [cleaned_card])
          else clean_cards_loop rest cleaned_cards
      | None \<Rightarrow> clean_cards_loop rest cleaned_cards)"

definition clean_card_list :: "json \<Rightarrow> pystr list" where
  "clean_card_list card_list =
     (case card_list of JList cards \<Rightarrow> clean_cards_loop cards [] | _ \<Rightarrow> [])"

section \<open>Field cleaning (ml\_pipeline.py)\<close>

text \<open>
  The exceptions that can leave a cleaner. \<open>ValueError\<close> and \<open>TypeError\<close> are caught
  where the source catches them; \<open>float\<close> of an integer too large for a float raises
  \<open>OverflowError\<close>, which no handler of ml\_pipeline.py names.
\<close>

datatype pyexn = ValueError | TypeError | OverflowError

text \<open>\<open>float(v)\<close> for a value of any type (\<open>bool\<close> is a subclass of \<open>int\<close>).\<close>

definition py_float :: "json \<Rightarrow> pyexn + pyfloat" where
  "py_float v =
     (case v of
        JStr s \<Rightarrow> (case float_of_str s of Some f \<Rightarrow> Inr f | None \<Rightarrow> Inl ValueError)
      | JFloat f \<Rightarrow> Inr f
      | JInt i \<Rightarrow> if float_max_bound \<le> of_int \<bar>i\<bar> then Inl OverflowError
                  else Inr (Fin (of_int i))
      | JBool b \<Rightarrow> Inr (Fin (if b then 1 else 0))
      | _ \<Rightarrow> Inl TypeError)"

text \<open>Python truthiness of a value (\<open>not v\<close> is its negation).\<close>

definition truthy :: "json \<Rightarrow> bool" where
  "truthy v =
     (case v of JNull \<Rightarrow> False | JBool b \<Rightarrow> b | JInt i \<Rightarrow> i \<noteq> 0
      | JFloat f \<Rightarrow> f \<noteq> Fin 0 | JStr s \<Rightarrow> s \<noteq> [] | JList xs \<Rightarrow> xs \<noteq> []
      | JDict d \<Rightarrow> d \<noteq> [])"

text \<open>
  \<open>str(v)\<close>. A string is itself; \<open>None\<close>, booleans and integers print as Python prints
  them. The text of a float, a list or a dictionary comes from Python's \<open>repr\<close>, which
  is not part of the repository: it is the parameter \<open>repr_of\<close>.
\<close>

function dec_digits :: "nat \<Rightarrow> pystr" where
  "dec_digits n = (if n < 10 then [48 + n] else dec_digits (n div 10) @ [48 + n mod 10])"
  by pat_completeness auto
termination
  by (relation "measure id") auto

definition py_str :: "(json \<Rightarrow> pystr) \<Rightarrow> json \<Rightarrow> pystr" where
  "py_str repr_of v =
     (case v of
        JStr s \<Rightarrow> s
      | JNull \<Rightarrow> pstr ''None''
      | JBool b \<Rightarrow> (if b then pstr ''True'' else pstr ''False'')
      | JInt i \<Rightarrow> (if i < 0 then 45 # dec_digits (nat (- i)) else dec_digits (nat i))
      | _ \<Rightarrow> repr_of v)"

text \<open>\<open>d.get(k, default)\<close> on a dictionary kept as an association list.\<close>

definition dict_get :: "('k \<times> 'v) list \<Rightarrow> 'k \<Rightarrow> 'v \<Rightarrow> 'v" where
  "dict_get d k dflt = (case map_of d k of Some v \<Rightarrow> v | None \<Rightarrow> dflt)"

definition NA :: pystr where "NA = pstr ''N/A''"
definition dashes :: pystr where "dashes = pstr ''--''"

definition clean_pot_value :: "json \<Rightarrow> pyexn + pyfloat" where
  "clean_pot_value pot_value =
     (if pot_value = JNull \<or> pot_value = JStr NA then Inr (Fin 0)
      else
        (case (case pot_value of
                 JStr s \<Rightarrow>
                   (let clean_pot = remove_char 32 (remove_char 44 (remove_char 36 s)) in
                    if clean_pot = [] \<or> upper clean_pot = NA then Some (Fin 0)
                    else (case float_of_str clean_pot of
                            Some f \<Rightarrow> Some f
                          | None \<Rightarrow> (case first_number clean_pot of
                                       Some n \<Rightarrow> float_of_str n
                                     | None \<Rightarrow> None)))
               | _ \<Rightarrow> None) of
           Some f \<Rightarrow> Inr f
         | None \<Rightarrow> (case py_float pot_value of
                       Inr f \<Rightarrow> Inr f
                     | Inl e \<Rightarrow> if e = ValueError \<or> e = TypeError then Inr (Fin 0)
                                else Inl e)))"

definition clean_bankroll_value :: "(json \<Rightarrow> pystr) \<Rightarrow> json \<Rightarrow> pystr" where
  "clean_bankroll_value repr_of bankroll =
     (if bankroll = JNull \<or> strip (py_str repr_of bankroll) = [] then NA
      else (let bankroll_str = strip (remove_char 44 (remove_char 36 (py_str repr_of bankroll))) in
            if upper bankroll_str = NA \<or> bankroll_str = [] then NA
            else (case float_of_str bankroll_str of
                    Some f \<Rightarrow> bankroll_str
                  | None \<Rightarrow> (case first_number bankroll_str of
                               Some n \<Rightarrow> n | None \<Rightarrow> NA))))"

definition clean_vpip_value :: "(json \<Rightarrow> pystr) \<Rightarrow> json \<Rightarrow> pystr" where
  "clean_vpip_value repr_of vpip =
     (if vpip = JNull then dashes
      else (let vpip_str = strip (py_str repr_of vpip) in
            if vpip_str \<in> set [dashes, NA, []] then dashes
            else if \<not> endswith vpip_str (pstr ''%'') \<and> vpip_str \<noteq> dashes then
              (case float_of_str vpip_str of
                 Some f \<Rightarrow> vpip_str @ pstr ''%''
               | None \<Rightarrow> dashes)
            else if endswith vpip_str (pstr ''%'') then
              (case float_of_str (butlast vpip_str) of
                 Some percentage \<Rightarrow>
                   if fl_le (Fin 0) percentage \<and> fl_le percentage (Fin 100) then vpip_str
                   else dashes
               | None \<Rightarrow> dashes)
            else dashes))"

definition position_codes :: "pystr list" where
  "position_codes = map pstr [''BTN'', ''SB'', ''BB'', ''UTG'', ''MP'', ''CO'', ''HJ'']"

text \<open>\<open>VALID_POSITION_PATTERN.match\<close>, with the same reading of \<open>$\<close> as for cards.\<close>

definition VALID_POSITION_PATTERN :: "pystr \<Rightarrow> bool" where
  "VALID_POSITION_PATTERN s =
     (s \<in> set position_codes \<or> (s \<noteq> [] \<and> last s = 10 \<and> butlast s \<in> set position_codes))"

definition position_corrections :: "(pystr \<times> pystr) list" where
  "position_corrections =
     [(pstr ''BUTTON'', pstr ''BTN''), (pstr ''BU'', pstr ''BTN''),
      (pstr ''SMALL'', pstr ''SB''), (pstr ''SMALL_BLIND'', pstr ''SB''),
      (pstr ''BIG'', pstr ''BB''), (pstr ''BIG_BLIND'', pstr ''BB''),
      (pstr ''UNDER_THE_GUN'', pstr ''UTG''), (pstr ''MIDDLE'', pstr ''MP''),
      (pstr ''CUTOFF'', pstr ''CO''), (pstr ''HIJACK'', pstr ''HJ'')]"

definition clean_position_value :: "(json \<Rightarrow> pystr) \<Rightarrow> json \<Rightarrow> pystr" where
  "clean_position_value repr_of position =
     (if position = JNull then dashes
      else (let position_str = upper (strip (py_str repr_of position)) in
            if position_str \<in> set [dashes, NA, []] then dashes
            else if VALID_POSITION_PATTERN position_str then position_str
            else dict_get position_corrections position_str dashes))"

definition clean_action_value :: "(json \<Rightarrow> pystr) \<Rightarrow> json \<Rightarrow> pystr" where
  "clean_action_value repr_of action =
     (if action = JNull then dashes
      else (let action_str = lower (strip (py_str repr_of action)) in
            if action_str \<in> set [dashes, pstr ''n/a'', []] then dashes
            else if list_ex (contains action_str) [pstr ''fold'', pstr ''folded''] then pstr ''Fold''
            else if list_ex (contains action_str)
                      [pstr ''raise'', pstr ''bet'', pstr ''all-in'', pstr ''allin'']
                 then pstr ''Raise''
            else if list_ex (contains action_str) [pstr ''call'', pstr ''check''] then pstr ''Call''
            else dashes))"

definition clean_bet_value :: "(json \<Rightarrow> pystr) \<Rightarrow> json \<Rightarrow> pystr" where
  "clean_bet_value repr_of bet =
     (if bet = JNull then NA
      else (let bet_str = strip (remove_char 44 (remove_char 36 (py_str repr_of bet))) in
            if upper bet_str \<in> set [NA, dashes, []] then NA
            else (case float_of_str bet_str of
                    Some f \<Rightarrow> bet_str
                  | None \<Rightarrow> (case first_number bet_str of
                               Some n \<Rightarrow> n | None \<Rightarrow> NA))))"

text \<open>
  The loop of \<open>clean_players_data\<close> over the items of the dictionary, in order. The
  cleaned player is the dictionary the source builds; assigning to a key of
  \<open>cleaned_players\<close> replaces the entry in place or appends it.
\<close>

fun clean_players_loop ::
  "(json \<Rightarrow> pystr) \<Rightarrow> (pystr \<times> json) list \<Rightarrow> (pystr \<times> json) list \<Rightarrow> (pystr \<times> json) list" where
  "clean_players_loop repr_of [] cleaned_players = cleaned_players"
| "clean_players_loop repr_of ((player_name, player_info) # rest) cleaned_players =
     (case player_info of
        JDict info \<Rightarrow>
          (let bankroll = dict_get info (pstr ''bankroll'') (JStr NA) in
           if bankroll = JStr NA \<or> \<not> truthy bankroll
           then clean_players_loop repr_of rest cleaned_players
           else (let cleaned_bankroll = clean_bankroll_value repr_of bankroll;
                     cleaned_player = JDict
                       [(pstr ''bankroll'', JStr cleaned_bankroll),
                        (pstr ''vpip'',
                           JStr (clean_vpip_value repr_of (dict_get info (pstr ''vpip'') (JStr dashes)))),
                        (pstr ''position'',
                           JStr (clean_position_value repr_of
                                   (dict_get info (pstr ''position'') (JStr dashes)))),
                        (pstr ''action'',
                           JStr (clean_action_value repr_of
                                   (dict_get info (pstr ''action'') (JStr dashes)))),
                        (pstr ''bet'',
                           JStr (clean_bet_value repr_of (dict_get info (pstr ''bet'') (JStr NA))))]
                 in if cleaned_bankroll \<noteq> NA
                    then clean_players_loop repr_of rest
                           (AList.update player_name cleaned_player cleaned_players)
                    else clean_players_loop repr_of rest cleaned_players))
      | _ \<Rightarrow> clean_players_loop repr_of rest cleaned_players)"

definition clean_players_data :: "(json \<Rightarrow> pystr) \<Rightarrow> json \<Rightarrow> (pystr \<times> json) list" where
  "clean_players_data repr_of players_data =
     (case players_data of JDict d \<Rightarrow> clean_players_loop repr_of d [] | _ \<Rightarrow> [])"

text \<open>
  \<open>validate_game_state\<close> on a Python value: each \<open>isinstance\<close> test, the presence of
  the four keys, \<open>state['pot'] < 0\<close> and the two length tests.
\<close>

definition is_number :: "json \<Rightarrow> bool" where
  "is_number v = (case v of JInt i \<Rightarrow> True | JFloat f \<Rightarrow> True | JBool b \<Rightarrow> True | _ \<Rightarrow> False)"

definition less_zero :: "json \<Rightarrow> bool" where
  "less_zero v = (case v of JInt i \<Rightarrow> i < 0 | JFloat f \<Rightarrow> fl_less f (Fin 0) | _ \<Rightarrow> False)"

definition required_fields :: "pystr list" where
  "required_fields = map pstr [''pot'', ''board'', ''hero_cards'', ''players'']"

definition validate_game_state :: "json \<Rightarrow> bool" where
  "validate_game_state state =
     (case state of
        JDict d \<Rightarrow>
          if \<not> list_all (\<lambda>field. map_of d field \<noteq> None) required_fields then False
          else if \<not> is_number (the (map_of d (pstr ''pot''))) \<or> less_zero (the (map_of d (pstr ''pot'')))
            then False
          else if (case the (map_of d (pstr ''board'')) of JList b \<Rightarrow> 5 < length b | _ \<Rightarrow> True)
            then False
          else if (case the (map_of d (pstr ''hero_cards'')) of JList h \<Rightarrow> 2 < length h | _ \<Rightarrow> True)
            then False
          else if (case the (map_of d (pstr ''players'')) of JDict p \<Rightarrow> False | _ \<Rightarrow> True)
            then False
          else True
      | _ \<Rightarrow> False)"

text \<open>
  \<open>clean_game_state\<close> after \<open>json.loads\<close> has produced a dictionary \<open>data\<close>: lines 25 to 35.
  \<open>Inr None\<close> is the rejection, \<open>Inl\<close> an exception that leaves the function.
\<close>

definition clean_loaded_state :: "(json \<Rightarrow> pystr) \<Rightarrow> (pystr \<times> json) list \<Rightarrow> pyexn + json option" where
  "clean_loaded_state repr_of data =
     (case clean_pot_value (dict_get data (pstr ''pot'') JNull) of
        Inl e \<Rightarrow> Inl e
      | Inr pot \<Rightarrow>
          (let cleaned_state = JDict
             [(pstr ''pot'', JFloat pot),
              (pstr ''board'', JList (map JStr (clean_card_list (dict_get data (pstr ''board'') (JList []))))),
              (pstr ''hero_cards'',
                 JList (map JStr (clean_card_list (dict_get data (pstr ''hero_cards'') (JList []))))),
              (pstr ''players'',
                 JDict (clean_players_data repr_of (dict_get data (pstr ''players'') (JDict []))))]
           in if \<not> validate_game_state cleaned_state then Inr None else Inr (Some cleaned_state)))"

text \<open>
  \<open>clean_game_state\<close>. \<open>json.loads\<close> is the parameter \<open>loads\<close>, \<open>None\<close> standing for
  \<open>JSONDecodeError\<close>.
\<close>

definition clean_game_state ::
  "(pystr \<Rightarrow> json option) \<Rightarrow> (json \<Rightarrow> pystr) \<Rightarrow> pystr \<Rightarrow> pyexn + json option" where
  "clean_game_state loads repr_of json_state =
     (if json_state = [] \<or> strip json_state = [] then Inr None
      else (case loads json_state of
              None \<Rightarrow> Inr None
            | Some data \<Rightarrow> (case data of JDict d \<Rightarrow> clean_loaded_state repr_of d
                            | _ \<Rightarrow> Inr None)))"

section \<open>Screen reading (ocr.py)\<close>

text \<open>
  The capture regions come from the configuration module, which is not among the sources:
  they are opaque names. \<open>BANK 1\<close> stands for \<open>BANK_HERO\<close>, \<open>BANK 2\<close> for
  \<open>BANK_PLAYER_2\<close>, and likewise for the other per-seat regions and the numbered card regions.
\<close>

datatype region = POT_REGION | HERO_CARD nat | SUIT_HERO nat | BOARD_CARD nat | SUIT_CARD nat
  | BANK nat | VPIP nat | POSITION nat | ACTION nat | BET_AMOUNT nat

text \<open>A call that returns a value, or raises.\<close>

datatype 'a outcome = Raised | Done 'a

text \<open>
  What the screen shows during one cycle. \<open>text_at r\<close> is the result of \<open>self._text(r)\<close>, the
  recognised strings in detection order; \<open>colour_at r\<close> is the mean colour of the colour
  capture of \<open>r\<close>. Either is \<open>Raised\<close> when the capture or the recogniser raises. Colour
  components are exact numbers.
\<close>

record world =
  text_at :: "region \<Rightarrow> pystr list outcome"
  colour_at :: "region \<Rightarrow> (rat \<times> rat \<times> rat) outcome"

text \<open>The dictionary \<open>regs\<close> of each reader, in insertion order.\<close>

definition seat_regs :: "(nat \<Rightarrow> region) \<Rightarrow> (pystr \<times> region) list" where
  "seat_regs mk =
     [(pstr ''Hero'', mk 1), (pstr ''Player 2'', mk 2), (pstr ''Player 3'', mk 3),
      (pstr ''Player 4'', mk 4), (pstr ''Player 5'', mk 5), (pstr ''Player 6'', mk 6),
      (pstr ''Player 7'', mk 7)]"

text \<open>
  A dictionary built by assigning the pairs in order: a repeated key keeps its place and
  takes the later value.
\<close>

definition dict_of :: "('k \<times> 'v) list \<Rightarrow> ('k \<times> 'v) list" where
  "dict_of ps = foldl (\<lambda>d kv. AList.update (fst kv) (snd kv) d) [] ps"

text \<open>
  Python's \<open>min(xs, key=f)\<close> on a non-empty sequence: the first element whose key is
  least. \<open>best\<close> is the least so far.
\<close>

fun py_min :: "('b \<Rightarrow> 'b \<Rightarrow> bool) \<Rightarrow> ('a \<Rightarrow> 'b) \<Rightarrow> 'a \<Rightarrow> 'a list \<Rightarrow> 'a" where
  "py_min lt key best [] = best"
| "py_min lt key best (x # xs) =
     (if lt (key x) (key best) then py_min lt key x xs else py_min lt key best xs)"

text \<open>\<open>s.split()\<close>: the maximal runs of non-whitespace characters.\<close>

fun split_acc :: "pystr \<Rightarrow> pystr \<Rightarrow> pystr list" where
  "split_acc cur [] = (if cur = [] then [] else [cur])"
| "split_acc cur (c # cs) =
     (if isspace c then (if cur = [] then split_acc [] cs else cur # split_acc [] cs)
      else split_acc (cur @ [c]) cs)"

definition split :: "pystr \<Rightarrow> pystr list" where
  "split s = split_acc [] s"

text \<open>\<open>" ".join(xs)\<close>.\<close>

fun join_space :: "pystr list \<Rightarrow> pystr" where
  "join_space [] = []"
| "join_space [x] = x"
| "join_space (x # y # ys) = x @ [32] @ join_space (y # ys)"

definition ocr_text :: "world \<Rightarrow> region \<Rightarrow> pystr list outcome" where
  "ocr_text w region = text_at w region"

definition ocr_first :: "world \<Rightarrow> region \<Rightarrow> pystr outcome" where
  "ocr_first w region =
     (case ocr_text w region of
        Raised \<Rightarrow> Raised
      | Done txt \<Rightarrow> Done (case txt of [] \<Rightarrow> NA | t # ts \<Rightarrow> t))"

text \<open>
  \<open>_pot\<close>: the first whitespace-separated part, over the recognised strings in order and
  with commas removed, that \<open>float\<close> accepts.
\<close>

definition ocr_pot :: "world \<Rightarrow> pystr outcome" where
  "ocr_pot w =
     (case ocr_text w POT_REGION of
        Raised \<Rightarrow> Raised
      | Done raw \<Rightarrow>
          Done (case List.find (\<lambda>part. float_of_str part \<noteq> None)
                       (concat (map (\<lambda>t. split (remove_char 44 t)) raw)) of
                  Some part \<Rightarrow> part
                | None \<Rightarrow> NA))"

text \<open>
  Colours are compared by the square of the Euclidean distance; the source takes its square
  root, which does not change which distance is smaller.
\<close>

definition dist2 :: "rat \<times> rat \<times> rat \<Rightarrow> rat \<times> rat \<times> rat \<Rightarrow> rat" where
  "dist2 a b =
     (case a of (a1, a2, a3) \<Rightarrow> case b of (b1, b2, b3) \<Rightarrow>
        (a1 - b1) ^ 2 + (a2 - b2) ^ 2 + (a3 - b3) ^ 2)"

definition suit_rgb :: "(nat \<times> rat \<times> rat \<times> rat) list" where
  "suit_rgb = [(club, 27, 108, 27), (heart, 21, 82, 145), (diamond, 162, 32, 33),
     (spade, 41, 43, 41)]"

definition ocr_suit :: "world \<Rightarrow> region \<Rightarrow> nat outcome" where
  "ocr_suit w region =
     (case colour_at w region of
        Raised \<Rightarrow> Raised
      | Done rgb \<Rightarrow>
          Done (fst (py_min (<) (\<lambda>s. dist2 rgb (snd s)) (hd suit_rgb) (tl suit_rgb))))"

definition valid_cards :: "pystr list" where
  "valid_cards = map pstr [''A'', ''K'', ''Q'', ''J'', ''10'']
     @ map (\<lambda>c. [of_char c]) ''23456789''"

definition smart_card_correction :: "pystr \<Rightarrow> pystr option" where
  "smart_card_correction text_raw =
     (if text_raw = [] then None
      else (let txt = upper (strip text_raw) in
            if txt \<in> set valid_cards then Some txt
            else (case map_of [(pstr ''0'', pstr ''Q''), (pstr ''O'', pstr ''Q'')] txt of
                    Some v \<Rightarrow> Some v
                  | None \<Rightarrow>
                      if txt \<in> set (map pstr [''10'', ''TO'', ''1O'', ''IO'', ''LO''])
                      then Some (pstr ''10'')
                      else if list_all isdigit txt \<and> txt \<noteq> [] \<and> length txt = 1
                              \<and> 2 \<le> hd txt - 48 \<and> hd txt - 48 \<le> 9
                      then Some txt
                      else None)))"

text \<open>
  The inner function \<open>card\<close> of \<open>_hero_cards\<close>: the loop over the recognised strings.
  \<open>Done None\<close> is the value \<open>None\<close>.
\<close>

fun card_loop :: "world \<Rightarrow> region \<Rightarrow> pystr list \<Rightarrow> pystr option outcome" where
  "card_loop w suit_reg [] = Done None"
| "card_loop w suit_reg (raw_text # rest) =
     (case smart_card_correction raw_text of
        Some corrected_value \<Rightarrow>
          if corrected_value \<noteq> [] then
            (case ocr_suit w suit_reg of
               Raised \<Rightarrow> Raised
             | Done suit \<Rightarrow> Done (Some (corrected_value @ [suit])))
          else card_loop w suit_reg rest
      | None \<Rightarrow> card_loop w suit_reg rest)"

definition hero_card :: "world \<Rightarrow> region \<Rightarrow> region \<Rightarrow> pystr option outcome" where
  "hero_card w region suit_reg =
     (case ocr_text w region of Raised \<Rightarrow> Raised
      | Done card_texts \<Rightarrow> card_loop w suit_reg card_texts)"

definition ocr_hero_cards :: "world \<Rightarrow> pystr list outcome" where
  "ocr_hero_cards w =
     (case hero_card w (HERO_CARD 1) (SUIT_HERO 1) of
        Raised \<Rightarrow> Raised
      | Done c1 \<Rightarrow>
          (case hero_card w (HERO_CARD 2) (SUIT_HERO 2) of
             Raised \<Rightarrow> Raised
           | Done c2 \<Rightarrow>
               Done (map the (filter (\<lambda>c. c \<noteq> None \<and> c \<noteq> Some []) [c1, c2]))))"

text \<open>The loop of \<open>_board\<close> over the five card regions and their suit regions.\<close>

fun board_loop :: "world \<Rightarrow> (region \<times> region) list \<Rightarrow> pystr list \<Rightarrow> pystr list outcome" where
  "board_loop w [] cards = Done cards"
| "board_loop w ((r, s) # rest) cards =
     (case ocr_text w r of
        Raised \<Rightarrow> Raised
      | Done card_texts \<Rightarrow>
          (case card_texts of
             [] \<Rightarrow> board_loop w rest cards
           | t # ts \<Rightarrow>
               (case smart_card_correction t of
                  Some corrected_value \<Rightarrow>
                    if corrected_value \<noteq> [] then
                      (case ocr_suit w s of
                         Raised \<Rightarrow> Raised
                       | Done suit \<Rightarrow> board_loop w rest (cards @ [corrected_value @ [suit]]))
                    else board_loop w rest cards
                | None \<Rightarrow> board_loop w rest cards)))"

definition ocr_board :: "world \<Rightarrow> pystr list outcome" where
  "ocr_board w =
     board_loop w (zip (map BOARD_CARD [1, 2, 3, 4, 5]) (map SUIT_CARD [1, 2, 3, 4, 5])) []"

text \<open>
  A dictionary comprehension whose values are read from the screen: the entries are read in
  order, and the first read that raises ends the comprehension.
\<close>

fun read_dict :: "world \<Rightarrow> (pystr \<times> region) list \<Rightarrow> (pystr \<times> pystr) list
    \<Rightarrow> (pystr \<times> pystr) list outcome" where
  "read_dict w [] d = Done d"
| "read_dict w ((p, r) # rest) d =
     (case ocr_first w r of
        Raised \<Rightarrow> Raised
      | Done v \<Rightarrow> read_dict w rest (AList.update p v d))"

text \<open>
  \<open>_bankrolls\<close> returns the dictionary and the new value of \<open>self.seated_players\<close>, which
  it assigns after the last read.
\<close>

definition ocr_bankrolls :: "world \<Rightarrow> ((pystr \<times> pystr) list \<times> pystr list) outcome" where
  "ocr_bankrolls w =
     (case read_dict w (seat_regs BANK) [] of
        Raised \<Rightarrow> Raised
      | Done br \<Rightarrow> Done (br, map fst (filter (\<lambda>pv. snd pv \<noteq> NA) br)))"

definition ocr_vpips :: "world \<Rightarrow> pystr list \<Rightarrow> (pystr \<times> pystr) list outcome" where
  "ocr_vpips w seated =
     (case read_dict w (filter (\<lambda>pr. fst pr \<in> set seated) (seat_regs VPIP)) [] of
        Raised \<Rightarrow> Raised
      | Done d \<Rightarrow> Done (map (\<lambda>pv. (fst pv, snd pv @ pstr ''%'')) d))"

text \<open>
  \<open>_positions\<close>. A distance is \<open>Some d\<close>, or \<open>None\<close> for \<open>float('inf')\<close>, which the
  handler of the capture stores when anything in the \<open>try\<close> block raises.
\<close>

definition btn_rgb :: "rat \<times> rat \<times> rat" where
  "btn_rgb = (99, 182, 231)"

fun dist_less :: "rat option \<Rightarrow> rat option \<Rightarrow> bool" where
  "dist_less (Some a) (Some b) = (a < b)"
| "dist_less (Some a) None = True"
| "dist_less None _ = False"

definition position_dist :: "world \<Rightarrow> pystr \<Rightarrow> rat option" where
  "position_dist w p =
     (case map_of (seat_regs POSITION) p of
        None \<Rightarrow> None
      | Some r \<Rightarrow> (case colour_at w r of Raised \<Rightarrow> None | Done avg \<Rightarrow> Some (dist2 avg btn_rgb)))"

fun index_of :: "'a list \<Rightarrow> 'a \<Rightarrow> nat option" where
  "index_of [] x = None"
| "index_of (y # ys) x = (if y = x then Some 0 else map_option Suc (index_of ys x))"

definition position_labels :: "pystr list" where
  "position_labels = map pstr [''BTN'', ''SB'', ''BB'', ''UTG'', ''MP'', ''CO'', ''HJ'']"

definition ocr_positions :: "world \<Rightarrow> pystr list \<Rightarrow> (pystr \<times> pystr) list" where
  "ocr_positions w seated =
     (let dists = dict_of (map (\<lambda>p. (p, position_dist w p)) seated) in
      if dists = [] then dict_of (map (\<lambda>p. (p, dashes)) seated)
      else (let btn = fst (py_min dist_less snd (hd dists) (tl dists)) in
            case index_of seated btn of
              None \<Rightarrow> dict_of (map (\<lambda>p. (p, dashes)) seated)
            | Some i \<Rightarrow>
                (let order = drop i seated @ take i seated;
                     labels = take (length order) position_labels
                 in dict_of (zip order labels))))"

text \<open>
  The loop of \<open>_actions\<close>. It adds to \<open>self.folded_players\<close> as it goes, so the set is
  returned with the result, also when a read raises part of the way.
\<close>

fun actions_loop :: "world \<Rightarrow> pystr list \<Rightarrow> (pystr \<times> pystr) list \<Rightarrow> pystr set
    \<Rightarrow> (pystr \<times> pystr) list outcome \<times> pystr set" where
  "actions_loop w [] acts folded = (Done acts, folded)"
| "actions_loop w (p # ps) acts folded =
     (case map_of (seat_regs ACTION) p of
        Some r \<Rightarrow>
          (case ocr_text w r of
             Raised \<Rightarrow> (Raised, folded)
           | Done txt \<Rightarrow>
               (let words = lower (join_space txt) in
                if contains words (pstr ''fold'')
                  then actions_loop w ps (AList.update p (pstr ''Fold'') acts) (insert p folded)
                else if p \<in> folded
                  then actions_loop w ps (AList.update p (pstr ''Fold'') acts) folded
                else if contains words (pstr ''raise'')
                  then actions_loop w ps (AList.update p (pstr ''Raise'') acts) folded
                else if contains words (pstr ''call'')
                  then actions_loop w ps (AList.update p (pstr ''Call'') acts) folded
                else actions_loop w ps (AList.update p dashes acts) folded))
      | None \<Rightarrow> actions_loop w ps (AList.update p dashes acts) folded)"

definition ocr_actions :: "world \<Rightarrow> pystr list \<Rightarrow> pystr set
    \<Rightarrow> (pystr \<times> pystr) list outcome \<times> pystr set" where
  "ocr_actions w seated folded = actions_loop w seated [] folded"

text \<open>\<open>_bets\<close>; \<open>regs[p]\<close> raises \<open>KeyError\<close> for a name that is not a seat.\<close>

fun bets_loop :: "world \<Rightarrow> pystr list \<Rightarrow> (pystr \<times> pystr) list \<Rightarrow> (pystr \<times> pystr) list outcome" where
  "bets_loop w [] d = Done d"
| "bets_loop w (p # ps) d =
     (case map_of (seat_regs BET_AMOUNT) p of
        None \<Rightarrow> Raised
      | Some r \<Rightarrow> (case ocr_first w r of
                     Raised \<Rightarrow> Raised
                   | Done v \<Rightarrow> bets_loop w ps (AList.update p v d)))"

definition ocr_bets :: "world \<Rightarrow> pystr list \<Rightarrow> (pystr \<times> pystr) list outcome" where
  "ocr_bets w seated = bets_loop w seated []"

section \<open>The polling cycle (ocr.py)\<close>

record GameState =
  pot :: pystr
  board :: "pystr list"
  hero_cards :: "pystr list"
  players :: "(pystr \<times> (pystr \<times> pystr) list) list"

definition GameState_init :: GameState where
  "GameState_init = \<lparr>pot = NA, board = [], hero_cards = [], players = []\<rparr>"

definition update_players :: "(pystr \<times> pystr) list \<Rightarrow> (pystr \<times> pystr) list \<Rightarrow> (pystr \<times> pystr) list
    \<Rightarrow> (pystr \<times> pystr) list \<Rightarrow> (pystr \<times> pystr) list \<Rightarrow> GameState \<Rightarrow> GameState" where
  "update_players bankrolls vpips positions actions bets g =
     g\<lparr>players := dict_of (map (\<lambda>name. (name,
          [(pstr ''bankroll'', dict_get bankrolls name NA),
           (pstr ''vpip'', dict_get vpips name dashes),
           (pstr ''position'', dict_get positions name dashes),
           (pstr ''action'', dict_get actions name dashes),
           (pstr ''bet'', dict_get bets name NA)])) (map fst bankrolls))\<rparr>"

text \<open>
  \<open>to_json\<close> gives the document that \<open>json.dumps\<close> serialises; the model keeps the
  document.
\<close>

definition to_json :: "GameState \<Rightarrow> json" where
  "to_json g = JDict
     [(pstr ''pot'', JStr (pot g)),
      (pstr ''board'', JList (map JStr (board g))),
      (pstr ''hero_cards'', JList (map JStr (hero_cards g))),
      (pstr ''players'',
         JDict (map (\<lambda>nd. (fst nd, JDict (map (\<lambda>kv. (fst kv, JStr (snd kv))) (snd nd))))
                  (players g)))]"

record OCR =
  state :: GameState
  seated_players :: "pystr list"
  bankrolls :: "(pystr \<times> pystr) list"
  vpips :: "(pystr \<times> pystr) list"
  positions :: "(pystr \<times> pystr) list"
  actions :: "(pystr \<times> pystr) list"
  bets :: "(pystr \<times> pystr) list"
  prev_hash :: pystr
  folded_players :: "pystr set"
  last_street_count :: nat
  last_hero_cards :: "pystr list"
  last_board :: "pystr list"
  hand_just_ended :: bool

definition OCR_init :: "GameState \<Rightarrow> OCR" where
  "OCR_init game_state =
     \<lparr>state = game_state, seated_players = [], bankrolls = [], vpips = [], positions = [],
      actions = [], bets = [], prev_hash = [], folded_players = {}, last_street_count = 0,
      last_hero_cards = [], last_board = [], hand_just_ended = False\<rparr>"

text \<open>The flag \<open>hand_reset\<close> of \<open>refresh_all\<close>, set by the three tests in turn.\<close>

definition hand_reset_flag :: "OCR \<Rightarrow> pystr list \<Rightarrow> pystr list \<Rightarrow> bool" where
  "hand_reset_flag self hero brd =
     (let hand_reset = False;
          hand_reset = (if length (last_hero_cards self) > 0 \<and> length hero = 0
                        then True else hand_reset);
          hand_reset = (if length (last_board self) > 0 \<and> length brd = 0
                        then True else hand_reset);
          hand_reset = (if length hero = 2 \<and> length (last_hero_cards self) = 2
                        then (if set hero \<noteq> set (last_hero_cards self) then True else hand_reset)
                        else hand_reset)
      in hand_reset)"

text \<open>
  The three ways through the street test of \<open>refresh_all\<close>: the reset branch with the
  flag set, the reset branch without it, and the branch that reads actions and bets.
\<close>

datatype lifecycle = HandReset | StreetAdvance | Steady

definition classify :: "OCR \<Rightarrow> pystr list \<Rightarrow> pystr list \<Rightarrow> lifecycle" where
  "classify self hero brd =
     (let hand_reset = hand_reset_flag self hero brd;
          street = length brd
      in if street \<noteq> last_street_count self \<or> hand_reset
         then (if hand_reset then HandReset else StreetAdvance)
         else Steady)"

text \<open>The tuple \<open>snapshot\<close>; sorting pairs of strings is lexicographic, as in Python.\<close>

type_synonym snapshot = "pystr \<times> pystr list \<times> pystr list \<times> (pystr \<times> pystr) list
  \<times> (pystr \<times> pystr) list \<times> (pystr \<times> pystr) list \<times> (pystr \<times> pystr) list \<times> (pystr \<times> pystr) list"

definition snapshot_of :: "pystr \<Rightarrow> pystr list \<Rightarrow> pystr list \<Rightarrow> OCR \<Rightarrow> snapshot" where
  "snapshot_of pt brd hero self =
     (pt, brd, hero, sort (bankrolls self), sort (vpips self), sort (positions self),
      sort (actions self), sort (bets self))"

text \<open>
  The street test and its two branches (lines 269 to 278). The second component is the
  object after the branch; the first is \<open>Raised\<close> when a read of the second branch raises.
\<close>

definition track_actions :: "world \<Rightarrow> pystr list \<Rightarrow> pystr list \<Rightarrow> OCR \<Rightarrow> unit outcome \<times> OCR" where
  "track_actions w hero brd self =
     (let hand_reset = hand_reset_flag self hero brd;
          street = length brd
      in if street \<noteq> last_street_count self \<or> hand_reset then
           (let self1 = self\<lparr>actions := dict_of (map (\<lambda>p. (p, dashes)) (seated_players self)),
                             bets := dict_of (map (\<lambda>p. (p, NA)) (seated_players self))\<rparr>;
                self2 = (if hand_reset then self1\<lparr>folded_players := {}\<rparr> else self1)
            in (Done (), self2\<lparr>last_street_count := street\<rparr>))
         else
           (case ocr_actions w (seated_players self) (folded_players self) of
              (Raised, folded) \<Rightarrow> (Raised, self\<lparr>folded_players := folded\<rparr>)
            | (Done acts, folded) \<Rightarrow>
                (let self1 = self\<lparr>folded_players := folded, actions := acts\<rparr> in
                 case ocr_bets w (seated_players self1) of
                   Raised \<Rightarrow> (Raised, self1)
                 | Done b \<Rightarrow> (Done (), self1\<lparr>bets := b\<rparr>))))"

text \<open>
  The change test and the emission (lines 280 to 314). \<open>str_of\<close> is Python's \<open>str\<close> on the
  snapshot tuple. The result is the returned \<open>json_state\<close>, the text handed to the write
  of \<open>game_state.json\<close> (an exception of the write is caught and changes nothing else),
  and the object.
\<close>

definition emit :: "(snapshot \<Rightarrow> pystr) \<Rightarrow> pystr \<Rightarrow> pystr list \<Rightarrow> pystr list \<Rightarrow> bool \<Rightarrow> OCR
    \<Rightarrow> json option \<times> json option \<times> OCR" where
  "emit str_of pt brd hero hand_reset self =
     (let hash = str_of (snapshot_of pt brd hero self);
          changed = (hash \<noteq> prev_hash self \<or> hand_reset);
          json_state = None
      in if changed then
           (let g = update_players (bankrolls self) (vpips self) (positions self) (actions self)
                      (bets self) ((state self)\<lparr>pot := pt, board := brd, hero_cards := hero\<rparr>);
                self1 = self\<lparr>prev_hash := hash, state := g\<rparr>;
                json_state = Some (to_json g)
            in (json_state, json_state, self1\<lparr>last_hero_cards := hero, last_board := brd\<rparr>))
         else (json_state, None, self\<lparr>last_hero_cards := hero, last_board := brd\<rparr>))"

text \<open>
  \<open>refresh_all\<close>. A read that raises ends the cycle with the object as the earlier
  assignments left it.
\<close>

definition refresh_all :: "(snapshot \<Rightarrow> pystr) \<Rightarrow> world \<Rightarrow> OCR
    \<Rightarrow> json option outcome \<times> json option \<times> OCR" where
  "refresh_all str_of w self =
     (case ocr_pot w of
        Raised \<Rightarrow> (Raised, None, self)
      | Done pt \<Rightarrow>
     (case ocr_board w of
        Raised \<Rightarrow> (Raised, None, self)
      | Done brd \<Rightarrow>
     (case ocr_hero_cards w of
        Raised \<Rightarrow> (Raised, None, self)
      | Done hero \<Rightarrow>
     (case ocr_bankrolls w of
        Raised \<Rightarrow> (Raised, None, self)
      | Done (br, seated) \<Rightarrow>
          (let self1 = self\<lparr>seated_players := seated, bankrolls := br\<rparr> in
           case ocr_vpips w (seated_players self1) of
             Raised \<Rightarrow> (Raised, None, self1)
           | Done vp \<Rightarrow>
               (let self2 = self1\<lparr>vpips := vp\<rparr>;
                    self3 = self2\<lparr>positions := ocr_positions w (seated_players self2)\<rparr>
                in case track_actions w hero brd self3 of
                     (Raised, self4) \<Rightarrow> (Raised, None, self4)
                   | (Done u, self4) \<Rightarrow>
                       (case emit str_of pt brd hero (hand_reset_flag self3 hero brd) self4 of
                          (json_state, written, self5) \<Rightarrow> (Done json_state, written, self5))))))))"

text \<open>
  The kind of a cycle, when it gets as far as the street test, and the object after a
  sequence of cycles.
\<close>

definition cycle_kind :: "world \<Rightarrow> OCR \<Rightarrow> lifecycle option" where
  "cycle_kind w self =
     (case (ocr_pot w, ocr_board w, ocr_hero_cards w, ocr_bankrolls w) of
        (Done pt, Done brd, Done hero, Done (br, seated)) \<Rightarrow>
          (case ocr_vpips w seated of
             Raised \<Rightarrow> None
           | Done vp \<Rightarrow> Some (classify self hero brd))
      | _ \<Rightarrow> None)"

fun run_cycles :: "(snapshot \<Rightarrow> pystr) \<Rightarrow> world list \<Rightarrow> OCR \<Rightarrow> OCR" where
  "run_cycles str_of [] self = self"
| "run_cycles str_of (w # ws) self = run_cycles str_of ws (snd (snd (refresh_all str_of w self)))"

fun no_reset :: "(snapshot \<Rightarrow> pystr) \<Rightarrow> world list \<Rightarrow> OCR \<Rightarrow> bool" where
  "no_reset str_of [] self = True"
| "no_reset str_of (w # ws) self =
     (cycle_kind w self \<noteq> Some HandReset
      \<and> no_reset str_of ws (snd (snd (refresh_all str_of w self))))"

section \<open>Example screens\<close>

text \<open>
  A screen on which only the hero is seated, with bankroll text \<open>100\<close> and the given text
  in the hero's action region, no cards and no pot; and an injective stand-in for \<open>str\<close>
  on snapshots. They serve as concrete inputs for the theorems below.
\<close>

definition table_with_hero :: "pystr \<Rightarrow> world" where
  "table_with_hero action_text =
     \<lparr>text_at = (\<lambda>r. if r = BANK 1 then Done [pstr ''100'']
                    else if r = ACTION 1 then Done [action_text] else Done []),
      colour_at = (\<lambda>r. Done (0, 0, 0))\<rparr>"

definition str_example :: "snapshot \<Rightarrow> pystr" where
  "str_example s = [to_nat s]"

section \<open>Evaluation rules\<close>

lemmas str_eval = pstr_def spade_def heart_def diamond_def club_def strip_def isspace_def upper_def
  upper_char_def lower_def lower_char_def startswith_def endswith_def remove_char_def isdigit_def
  first_number_def NA_def dashes_def
lemmas float_eval = mk_float_def float_max_bound_def digitpart_def dec_val_def exponent_def
  scale10_def unsigned_number_def float_of_str_def
lemmas card_eval = card_ranks_def card_suits_def canonical_card_def VALID_CARD_PATTERN_def
  suit_replacements_def normalize_card_format_def value_corrections_def repair_card_ocr_errors_def
  clean_single_card_def clean_card_list_def

lemma strip_last: "strip s \<noteq> [] \<Longrightarrow> \<not> isspace (last (strip s))"
proof -
  assume a: "strip s \<noteq> []"
  define t where "t = rev (dropWhile isspace s)"
  have t: "dropWhile isspace t \<noteq> []" using a by (simp add: strip_def t_def)
  then have "\<not> isspace (hd (dropWhile isspace t))" by (rule hd_dropWhile)
  moreover have "last (strip s) = hd (dropWhile isspace t)"
    using t by (simp add: strip_def t_def last_rev)
  ultimately show ?thesis by simp
qed

lemma replace_suit_last:
  "replace_suit tbl c = c \<or> (replace_suit tbl c \<noteq> [] \<and> last (replace_suit tbl c) \<in> snd ` set tbl)"
  by (induction tbl c rule: replace_suit.induct) auto

lemma last_not_nl: "c \<noteq> [] \<Longrightarrow> c = strip y \<Longrightarrow> last c \<noteq> 10"
  using strip_last[of y] by (auto simp: isspace_def)

lemma normalize_last: "normalize_card_format x \<noteq> [] \<Longrightarrow> last (normalize_card_format x) \<noteq> 10"
proof -
  assume ne: "normalize_card_format x \<noteq> []"
  define c where "c = strip (upper x)"
  have sp: "c \<noteq> [] \<Longrightarrow> last c \<noteq> 10" using last_not_nl[of c "upper x"] by (simp add: c_def)
  consider (ten) "startswith c (pstr ''10'')"
    | (t) "\<not> startswith c (pstr ''10'')" "startswith c (pstr ''T'')"
    | (suit) "\<not> startswith c (pstr ''10'')" "\<not> startswith c (pstr ''T'')" by blast
  then show ?thesis
  proof cases
    case ten
    then have "normalize_card_format x = pstr ''10'' @ drop 2 c"
      by (simp add: normalize_card_format_def c_def Let_def)
    moreover have "c \<noteq> []" using ten by (auto simp: startswith_def pstr_def)
    ultimately show ?thesis using sp by (cases "drop 2 c = []") (auto simp: pstr_def)
  next
    case t
    then have "normalize_card_format x = pstr ''10'' @ drop 1 c"
      by (simp add: normalize_card_format_def c_def Let_def)
    moreover have "c \<noteq> []" using t by (auto simp: startswith_def pstr_def)
    ultimately show ?thesis using sp by (cases "drop 1 c = []") (auto simp: pstr_def)
  next
    case suit
    then have eq: "normalize_card_format x = replace_suit suit_replacements c"
      by (simp add: normalize_card_format_def c_def Let_def)
    from replace_suit_last[of suit_replacements c] show ?thesis
    proof
      assume "replace_suit suit_replacements c = c"
      then show ?thesis using eq ne sp by simp
    next
      assume "replace_suit suit_replacements c \<noteq> [] \<and>
        last (replace_suit suit_replacements c) \<in> snd ` set suit_replacements"
      then show ?thesis using eq
        by (auto simp: suit_replacements_def spade_def heart_def diamond_def club_def)
    qed
  qed
qed

lemma valid_normalized:
  "VALID_CARD_PATTERN (normalize_card_format x) \<Longrightarrow> canonical_card (normalize_card_format x)"
  using normalize_last[of x] by (auto simp: VALID_CARD_PATTERN_def)

lemma clean_single_card_canonical: "clean_single_card v = Some c \<Longrightarrow> canonical_card c"
proof -
  assume a: "clean_single_card v = Some c"
  then obtain s where v: "v = JStr s" by (cases v) (simp_all add: clean_single_card_def)
  show ?thesis
  proof (cases "VALID_CARD_PATTERN (normalize_card_format (strip s))")
    case True
    then have "c = normalize_card_format (strip s)" using a v
      by (simp add: clean_single_card_def Let_def split: if_splits)
    then show ?thesis using True valid_normalized[of "strip s"] by simp
  next
    case False
    then have "\<exists>y. c = normalize_card_format y \<and> VALID_CARD_PATTERN c" using a v
      by (auto simp add: clean_single_card_def repair_card_ocr_errors_def Let_def
          split: if_splits)
    then show ?thesis using valid_normalized by blast
  qed
qed

lemma clean_cards_loop_eq:
  "clean_cards_loop xs acc = acc @ map the (filter (\<lambda>r. r \<noteq> None) (map clean_single_card xs))"
proof (induction xs arbitrary: acc)
  case Nil
  then show ?case by simp
next
  case (Cons x xs)
  show ?case
  proof (cases "clean_single_card x")
    case None
    then show ?thesis using Cons.IH by simp
  next
    case (Some c)
    then have "c \<noteq> []" using clean_single_card_canonical[of x c] by (auto simp: canonical_card_def)
    then show ?thesis using Some Cons.IH by simp
  qed
qed

section \<open>Card cleaning\<close>

lemma clean_single_card_unfold:
  "clean_single_card (JStr s) =
     (if strip s = [] \<or> length (strip s) < 2 then None
      else if VALID_CARD_PATTERN (normalize_card_format (strip s))
        then Some (normalize_card_format (strip s))
      else (case repair_card_ocr_errors (normalize_card_format (strip s)) of
              Some r \<Rightarrow> if r \<noteq> [] \<and> VALID_CARD_PATTERN r then Some r else None
            | None \<Rightarrow> None))"
  by (simp add: clean_single_card_def Let_def)

lemma repair_unfold:
  "repair_card_ocr_errors [c, s] =
     Some (normalize_card_format (dict_get value_corrections [c] [c] @ [s]))"
  by (simp add: repair_card_ocr_errors_def dict_get_def Let_def)

lemma strip_pair: "\<not> isspace c \<Longrightarrow> \<not> isspace s \<Longrightarrow> strip [c, s] = [c, s]"
  by (simp add: strip_def)

lemma replace_suit_pair:
  "s \<notin> {83, 72, 68, 67} \<Longrightarrow> replace_suit suit_replacements [c, s] = [c, s]"
  by (simp add: suit_replacements_def endswith_def pstr_def)

lemma normalize_pair_gen:
  "\<not> isspace c \<Longrightarrow> \<not> isspace s \<Longrightarrow> upper_char c = c \<Longrightarrow> upper_char s = s \<Longrightarrow> c \<noteq> 84 \<Longrightarrow> s \<noteq> 48
   \<Longrightarrow> s \<notin> {83, 72, 68, 67} \<Longrightarrow> normalize_card_format [c, s] = [c, s]"
  by (simp add: normalize_card_format_def upper_def strip_def startswith_def pstr_def
      replace_suit_pair)

lemma suit_facts:
  "s \<in> set card_suits \<Longrightarrow> \<not> isspace s \<and> upper_char s = s \<and> s \<noteq> 48 \<and> s \<notin> {83, 72, 68, 67} \<and> 122 < s"
  by (auto simp: card_suits_def isspace_def upper_char_def spade_def heart_def diamond_def club_def)

lemma normalize_pair:
  assumes "s \<in> set card_suits" "c \<in> set [48, 79, 73, 76, 83, 66, 71, 81, 49, 53, 56, 54]"
  shows "normalize_card_format [c, s] = [c, s]"
proof -
  have "\<not> isspace c \<and> upper_char c = c \<and> c \<noteq> 84"
    using assms(2) by (auto simp: isspace_def upper_char_def)
  then show ?thesis using suit_facts[OF assms(1)] by (simp add: normalize_pair_gen)
qed

lemma valid_pair:
  assumes "s \<in> set card_suits" "c \<in> set [48, 79, 73, 76, 83, 66, 71, 81, 49, 53, 56, 54]"
  shows "VALID_CARD_PATTERN [c, s] = (c \<in> set [81, 53, 56, 54])"
proof -
  have "s \<noteq> 10" using suit_facts[OF assms(1)] by auto
  then show ?thesis using assms
    by (auto simp add: VALID_CARD_PATTERN_def canonical_card_def card_ranks_def pstr_def)
qed

lemma corrections_eval:
  "dict_get value_corrections [48] [48] = [81]" "dict_get value_corrections [79] [79] = [81]"
  "dict_get value_corrections [73] [73] = [49]" "dict_get value_corrections [76] [76] = [49]"
  "dict_get value_corrections [83] [83] = [53]" "dict_get value_corrections [66] [66] = [56]"
  "dict_get value_corrections [71] [71] = [54]"
  by (simp_all add: dict_get_def value_corrections_def pstr_def)

lemma repair_entry:
  assumes "s \<in> set card_suits" "(tok, rank) \<in> set value_corrections"
  shows "repair_card_ocr_errors (tok @ [s]) = Some (rank @ [s])
    \<and> VALID_CARD_PATTERN (rank @ [s]) = (rank \<noteq> pstr ''1'')
    \<and> clean_single_card (JStr (tok @ [s])) = (if rank = pstr ''1'' then None else Some (rank @ [s]))"
proof -
  have sp: "\<not> isspace s" using suit_facts[OF assms(1)] by simp
  from assms(2) consider "tok = [48] \<and> rank = [81]" | "tok = [79] \<and> rank = [81]"
    | "tok = [73] \<and> rank = [49]" | "tok = [76] \<and> rank = [49]" | "tok = [83] \<and> rank = [53]"
    | "tok = [66] \<and> rank = [56]" | "tok = [71] \<and> rank = [54]"
    by (auto simp: value_corrections_def pstr_def)
  then show ?thesis
    using assms(1) sp
    by cases (simp_all add: clean_single_card_unfold repair_unfold strip_pair normalize_pair
        valid_pair corrections_eval isspace_def pstr_def)
qed

lemma clean_as: "clean_single_card (JStr (pstr ''as'')) = Some (pstr ''A'' @ [spade])"
  by (simp add: str_eval card_eval)

text \<open>
  C10. Card-list cleaning is an order-preserving filter: the output of \<open>clean_card_list\<close> on a
  list is the list of the results of \<open>clean_single_card\<close> on the accepted elements, in their
  original order (nothing reordered, duplicated or invented), and every entry of the output
  is a rank in A, K, Q, J, 10, 2..9 followed by one of the four suit symbols.
\<close>

theorem clean_card_list_filter:
  "clean_card_list (JList xs) = map the (filter (\<lambda>r. r \<noteq> None) (map clean_single_card xs))
   \<and> (\<forall>c \<in> set (clean_card_list (JList xs)). canonical_card c)"
proof -
  have eq: "clean_card_list (JList xs) = map the (filter (\<lambda>r. r \<noteq> None) (map clean_single_card xs))"
    by (simp add: clean_card_list_def clean_cards_loop_eq)
  have "\<forall>c \<in> set (map the (filter (\<lambda>r. r \<noteq> None) (map clean_single_card xs))). canonical_card c"
    by (auto dest: clean_single_card_canonical)
  with eq show ?thesis by simp
qed

theorem clean_card_list_filter_witness:
  "clean_card_list (JList [JStr (pstr ''as''), JInt 7, JStr (pstr ''0'' @ [spade])])
     = [pstr ''A'' @ [spade], pstr ''Q'' @ [spade]]
   \<and> canonical_card (pstr ''A'' @ [spade]) \<and> canonical_card (pstr ''Q'' @ [spade])"
proof -
  have e1: "clean_single_card (JInt 7) = None" by (simp add: clean_single_card_def)
  have "spade \<in> set card_suits" "(pstr ''0'', pstr ''Q'') \<in> set value_corrections"
    by (simp_all add: card_suits_def value_corrections_def)
  from repair_entry[OF this]
  have e2: "clean_single_card (JStr (pstr ''0'' @ [spade])) = Some (pstr ''Q'' @ [spade])"
    by (simp add: pstr_def)
  show ?thesis
    using clean_card_list_filter[of "[JStr (pstr ''as''), JInt 7, JStr (pstr ''0'' @ [spade])]"]
    by (simp add: clean_as e1 e2)
qed

text \<open>
  C5 (as amended). For every suit symbol and every entry \<open>(tok, rank)\<close> of the repair table
  \<open>value_corrections\<close>, the repair pass turns the token \<open>tok\<close> followed by the suit into
  \<open>rank\<close> followed by the same suit. For the entries 0, O, S, B and G the repaired token
  (Q, Q, 5, 8, 6 with the suit) passes the rank and suit validation and is what
  \<open>clean_single_card\<close> returns. For the entries I and L the repaired token is 1 followed by the
  suit, which fails the validation, and \<open>clean_single_card\<close> returns nothing.
\<close>

theorem repair_then_validate:
  "\<forall>s \<in> set card_suits. \<forall>(tok, rank) \<in> set value_corrections.
     repair_card_ocr_errors (tok @ [s]) = Some (rank @ [s])
     \<and> (VALID_CARD_PATTERN (rank @ [s]) \<longleftrightarrow> rank \<noteq> pstr ''1'')
     \<and> clean_single_card (JStr (tok @ [s]))
         = (if rank = pstr ''1'' then None else Some (rank @ [s]))"
  using repair_entry by blast

theorem repair_then_validate_witness:
  "spade \<in> set card_suits \<and> (pstr ''S'', pstr ''5'') \<in> set value_corrections
   \<and> repair_card_ocr_errors (pstr ''S'' @ [spade]) = Some (pstr ''5'' @ [spade])
   \<and> VALID_CARD_PATTERN (pstr ''5'' @ [spade])
   \<and> clean_single_card (JStr (pstr ''S'' @ [spade])) = Some (pstr ''5'' @ [spade])"
proof -
  have a: "spade \<in> set card_suits" by (simp add: card_suits_def)
  have b: "(pstr ''S'', pstr ''5'') \<in> set value_corrections"
    by (simp add: value_corrections_def)
  have "pstr ''5'' \<noteq> pstr ''1''" by (simp add: pstr_def)
  then show ?thesis
    using a b repair_then_validate [rule_format, OF a b] by simp
qed

text \<open>
  The claim as written fails for the entry I of the table: the repaired token is 1 with the
  suit, which is not a card, so repair followed by validation yields no token.
\<close>

theorem repair_I_counterexample:
  "repair_card_ocr_errors (pstr ''I'' @ [spade]) = Some (pstr ''1'' @ [spade])
   \<and> \<not> VALID_CARD_PATTERN (pstr ''1'' @ [spade])
   \<and> clean_single_card (JStr (pstr ''I'' @ [spade])) = None"
proof -
  have "spade \<in> set card_suits" "(pstr ''I'', pstr ''1'') \<in> set value_corrections"
    by (simp_all add: card_suits_def value_corrections_def)
  from repair_entry[OF this] show ?thesis by simp
qed

section \<open>Field cleaning at concrete inputs\<close>

lemma float_150: "float_of_str (pstr ''150'') = Some (Fin 150)"
  by (simp add: str_eval float_eval)

lemma float_200: "float_of_str (pstr ''200'') = Some (Fin 200)"
  by (simp add: str_eval float_eval)

lemma float_nan: "float_of_str (pstr ''nan'') = Some NaN"
  by (simp add: str_eval float_eval)

lemma strip_150: "strip (pstr ''150'') = pstr ''150''" "strip (pstr ''150%'') = pstr ''150%''"
  "strip (pstr ''--'') = pstr ''--''" "strip (pstr ''200'') = pstr ''200''" "strip (pstr ''N/A'') = pstr ''N/A''"
  by (simp_all add: str_eval)

lemma vpip_150: "clean_vpip_value repr_of (JStr (pstr ''150'')) = pstr ''150%''"
  using float_150
  by (simp add: clean_vpip_value_def py_str_def strip_150 Let_def)
     (simp add: pstr_def endswith_def NA_def dashes_def)

lemma vpip_150pct: "clean_vpip_value repr_of (JStr (pstr ''150%'')) = pstr ''--''"
proof -
  have "butlast (pstr ''150%'') = pstr ''150''" by (simp add: pstr_def)
  then show ?thesis
    using float_150
    by (simp add: clean_vpip_value_def py_str_def strip_150 Let_def)
      (simp add: pstr_def endswith_def NA_def dashes_def)
qed

lemma bankroll_200: "clean_bankroll_value repr_of (JStr (pstr ''200'')) = pstr ''200''"
proof -
  have "remove_char 44 (remove_char 36 (pstr ''200'')) = pstr ''200''"
    by (simp add: remove_char_def pstr_def)
  moreover have "upper (pstr ''200'') \<noteq> NA" "pstr ''200'' \<noteq> []"
    by (simp_all add: str_eval)
  ultimately show ?thesis
    using float_200 by (simp add: clean_bankroll_value_def py_str_def strip_150 Let_def)
qed

lemma position_dashes: "clean_position_value repr_of (JStr dashes) = dashes"
  by (simp add: clean_position_value_def py_str_def Let_def str_eval)

lemma action_dashes: "clean_action_value repr_of (JStr dashes) = dashes"
  by (simp add: clean_action_value_def py_str_def Let_def str_eval)

lemma bet_NA: "clean_bet_value repr_of (JStr NA) = NA"
  by (simp add: clean_bet_value_def py_str_def Let_def str_eval)

lemma vpip_dashes: "clean_vpip_value repr_of (JStr dashes) = dashes"
  by (simp add: clean_vpip_value_def py_str_def Let_def str_eval)

lemma pot_absent: "clean_pot_value JNull = Inr (Fin 0)"
  by (simp add: clean_pot_value_def)

lemma pot_zero: "clean_pot_value (JFloat (Fin 0)) = Inr (Fin 0)"
  by (simp add: clean_pot_value_def py_float_def)

lemma pot_nan: "clean_pot_value (JStr (pstr ''nan'')) = Inr NaN"
proof -
  have "remove_char 32 (remove_char 44 (remove_char 36 (pstr ''nan''))) = pstr ''nan''"
    by (simp add: remove_char_def pstr_def)
  moreover have "upper (pstr ''nan'') \<noteq> NA" "pstr ''nan'' \<noteq> []" "JStr (pstr ''nan'') \<noteq> JStr NA"
    by (simp_all add: str_eval)
  ultimately show ?thesis
    using float_nan by (simp add: clean_pot_value_def Let_def)
qed

lemma cards_empty: "clean_card_list (JList []) = []"
  by (simp add: clean_card_list_def)

lemma validate_shape:
  "validate_game_state (JDict [(pstr ''pot'', JFloat f), (pstr ''board'', JList b),
      (pstr ''hero_cards'', JList h), (pstr ''players'', JDict p)])
   = (\<not> fl_less f (Fin 0) \<and> length b \<le> 5 \<and> length h \<le> 2)"
  by (auto simp add: validate_game_state_def required_fields_def pstr_def is_number_def less_zero_def)

lemma pstr_eq_iff: "(pstr a = pstr b) = (a = b)"
  by (simp add: pstr_def inj_map_eq_map inj_on_def)

lemma pstr_Nil_iff: "(pstr a = []) = (a = [])"
  by (simp add: pstr_def)

lemma clean_game_state_loaded:
  "strip json_state \<noteq> [] \<Longrightarrow> loads json_state = Some (JDict d)
   \<Longrightarrow> clean_game_state loads repr_of json_state = clean_loaded_state repr_of d"
  by (auto simp: clean_game_state_def strip_def)

lemma accepted_state_shape:
  assumes "clean_loaded_state repr_of d = Inr (Some st)"
  shows "\<exists>f b h p. st = JDict [(pstr ''pot'', JFloat f), (pstr ''board'', JList (map JStr b)),
            (pstr ''hero_cards'', JList (map JStr h)), (pstr ''players'', JDict p)]
          \<and> \<not> fl_less f (Fin 0) \<and> length b \<le> 5 \<and> length h \<le> 2"
proof -
  obtain f where f: "clean_pot_value (dict_get d (pstr ''pot'') JNull) = Inr f"
    using assms by (cases "clean_pot_value (dict_get d (pstr ''pot'') JNull)")
      (simp_all add: clean_loaded_state_def)
  define b where "b = clean_card_list (dict_get d (pstr ''board'') (JList []))"
  define h where "h = clean_card_list (dict_get d (pstr ''hero_cards'') (JList []))"
  define p where "p = clean_players_data repr_of (dict_get d (pstr ''players'') (JDict []))"
  have "st = JDict [(pstr ''pot'', JFloat f), (pstr ''board'', JList (map JStr b)),
            (pstr ''hero_cards'', JList (map JStr h)), (pstr ''players'', JDict p)]
        \<and> \<not> fl_less f (Fin 0) \<and> length b \<le> 5 \<and> length h \<le> 2"
    using assms f
    by (simp add: clean_loaded_state_def Let_def validate_shape b_def h_def p_def
        split: if_splits)
  then show ?thesis by blast
qed

text \<open>
  C1. The claim asks that an accepted state has \<open>pot \<ge> 0\<close>. \<open>validate_game_state\<close> rejects
  only when \<open>pot < 0\<close>, and the pot text \<open>nan\<close> is a float that is neither below zero nor at
  least zero: the state is accepted with a pot that is not a non-negative number. (The other
  parts of the claim hold, see \<open>accepted_state_shape\<close>.) \<open>clean_game_state\<close> applies
  \<open>clean_loaded_state\<close> to the dictionary \<open>json.loads\<close> returns.
\<close>

theorem nan_pot_accepted:
  "clean_loaded_state repr_of [(pstr ''pot'', JStr (pstr ''nan''))]
     = Inr (Some (JDict [(pstr ''pot'', JFloat NaN), (pstr ''board'', JList []),
          (pstr ''hero_cards'', JList []), (pstr ''players'', JDict [])]))
   \<and> \<not> fl_le (Fin 0) NaN"
  by (simp add: clean_loaded_state_def dict_get_def pstr_eq_iff pot_nan cards_empty
      clean_players_data_def validate_shape)

text \<open>
  C4. The VPIP text \<open>150\<close> has no percent sign: the cleaner checks that it is a float and
  returns it with a percent sign appended, without the range test that the branch for
  texts ending in a percent sign applies (there \<open>150%\<close> becomes \<open>--\<close>).
\<close>

theorem vpip_150_unchecked:
  "clean_vpip_value repr_of (JStr (pstr ''150'')) = pstr ''150%''
   \<and> float_of_str (pstr ''150'') = Some (Fin 150) \<and> \<not> fl_le (Fin 150) (Fin 100)
   \<and> clean_vpip_value repr_of (JStr (pstr ''150%'')) = pstr ''--''"
  by (simp add: vpip_150 vpip_150pct float_150)

lemma na_facts: "pstr ''200'' \<noteq> NA" "JStr (pstr ''200'') \<noteq> JStr NA" "pstr ''200'' \<noteq> []"
  by (simp_all add: NA_def pstr_eq_iff pstr_Nil_iff)

text \<open>
  C8. Cleaning is not stable under its own output: a player whose VPIP text is \<open>150\<close> is
  cleaned to \<open>150%\<close>, and cleaning that state again turns the VPIP into \<open>--\<close>.
\<close>

theorem reclean_changes_vpip:
  "clean_loaded_state repr_of
     [(pstr ''players'', JDict [(pstr ''Hero'',
         JDict [(pstr ''bankroll'', JStr (pstr ''200'')), (pstr ''vpip'', JStr (pstr ''150''))])])]
   = Inr (Some (JDict
     [(pstr ''pot'', JFloat (Fin 0)), (pstr ''board'', JList []), (pstr ''hero_cards'', JList []),
      (pstr ''players'', JDict [(pstr ''Hero'',
         JDict [(pstr ''bankroll'', JStr (pstr ''200'')), (pstr ''vpip'', JStr (pstr ''150%'')),
                (pstr ''position'', JStr dashes), (pstr ''action'', JStr dashes),
                (pstr ''bet'', JStr NA)])])]))
   \<and> clean_loaded_state repr_of
     [(pstr ''pot'', JFloat (Fin 0)), (pstr ''board'', JList []), (pstr ''hero_cards'', JList []),
      (pstr ''players'', JDict [(pstr ''Hero'',
         JDict [(pstr ''bankroll'', JStr (pstr ''200'')), (pstr ''vpip'', JStr (pstr ''150%'')),
                (pstr ''position'', JStr dashes), (pstr ''action'', JStr dashes),
                (pstr ''bet'', JStr NA)])])]
   = Inr (Some (JDict
     [(pstr ''pot'', JFloat (Fin 0)), (pstr ''board'', JList []), (pstr ''hero_cards'', JList []),
      (pstr ''players'', JDict [(pstr ''Hero'',
         JDict [(pstr ''bankroll'', JStr (pstr ''200'')), (pstr ''vpip'', JStr (pstr ''--'')),
                (pstr ''position'', JStr dashes), (pstr ''action'', JStr dashes),
                (pstr ''bet'', JStr NA)])])]))
   \<and> pstr ''150%'' \<noteq> pstr ''--''"
  by (simp add: clean_loaded_state_def dict_get_def pstr_eq_iff pot_absent pot_zero cards_empty
      clean_players_data_def validate_shape truthy_def na_facts bankroll_200 vpip_150
      vpip_150pct position_dashes action_dashes bet_NA)

section \<open>The hand lifecycle and change detection\<close>

lemma foldl_update_const:
  "map_of (foldl (\<lambda>d kv. AList.update (fst kv) (snd kv) d) d0 (map (\<lambda>p. (p, c)) xs)) k
     = (if k \<in> set xs then Some c else map_of d0 k)"
  by (induction xs arbitrary: d0) (auto simp: update_conv')

lemma map_of_dict_of_const:
  "map_of (dict_of (map (\<lambda>p. (p, c)) xs)) k = (if k \<in> set xs then Some c else None)"
  by (simp add: dict_of_def foldl_update_const)

lemma hand_reset_flag_iff:
  "hand_reset_flag self hero brd \<longleftrightarrow>
     (length (last_hero_cards self) > 0 \<and> length hero = 0)
   \<or> (length (last_board self) > 0 \<and> length brd = 0)
   \<or> (length hero = 2 \<and> length (last_hero_cards self) = 2 \<and> set hero \<noteq> set (last_hero_cards self))"
  by (auto simp: hand_reset_flag_def Let_def)

lemma hand_reset_flag_cong:
  "last_hero_cards a = last_hero_cards b \<Longrightarrow> last_board a = last_board b
   \<Longrightarrow> hand_reset_flag a hero brd = hand_reset_flag b hero brd"
  by (simp add: hand_reset_flag_iff)

lemma classify_HandReset: "classify self hero brd = HandReset \<longleftrightarrow> hand_reset_flag self hero brd"
  by (auto simp: classify_def Let_def)

lemma classify_StreetAdvance:
  "classify self hero brd = StreetAdvance \<longleftrightarrow>
     \<not> hand_reset_flag self hero brd \<and> length brd \<noteq> last_street_count self"
  by (auto simp: classify_def Let_def)

lemma classify_Steady:
  "classify self hero brd = Steady \<longleftrightarrow>
     \<not> hand_reset_flag self hero brd \<and> length brd = last_street_count self"
  by (auto simp: classify_def Let_def)

lemma track_actions_reset:
  assumes "hand_reset_flag self hero brd \<or> length brd \<noteq> last_street_count self"
  shows "track_actions w hero brd self =
     (Done (), self\<lparr>actions := dict_of (map (\<lambda>p. (p, dashes)) (seated_players self)),
                    bets := dict_of (map (\<lambda>p. (p, NA)) (seated_players self)),
                    folded_players := (if hand_reset_flag self hero brd then {} else folded_players self),
                    last_street_count := length brd\<rparr>)"
  using assms by (auto simp: track_actions_def Let_def)

lemma track_actions_steady:
  assumes "\<not> hand_reset_flag self hero brd" "length brd = last_street_count self"
  shows "track_actions w hero brd self =
     (case ocr_actions w (seated_players self) (folded_players self) of
        (Raised, folded) \<Rightarrow> (Raised, self\<lparr>folded_players := folded\<rparr>)
      | (Done acts, folded) \<Rightarrow>
          (case ocr_bets w (seated_players self) of
             Raised \<Rightarrow> (Raised, self\<lparr>folded_players := folded, actions := acts\<rparr>)
           | Done b \<Rightarrow> (Done (), self\<lparr>folded_players := folded, actions := acts, bets := b\<rparr>)))"
  using assms by (auto simp: track_actions_def Let_def split: prod.splits outcome.splits)

lemma emit_fields:
  assumes "emit str_of pt brd hero hr self = (r, f, self')"
  shows "seated_players self' = seated_players self" "bankrolls self' = bankrolls self"
    "vpips self' = vpips self" "positions self' = positions self" "actions self' = actions self"
    "bets self' = bets self" "folded_players self' = folded_players self"
    "last_street_count self' = last_street_count self"
    "last_hero_cards self' = hero" "last_board self' = brd"
    "prev_hash self' = str_of (snapshot_of pt brd hero self)"
    "f = r"
    "(r \<noteq> None) = (str_of (snapshot_of pt brd hero self) \<noteq> prev_hash self \<or> hr)"
  using assms by (auto simp: emit_def Let_def split: if_splits)

lemma refresh_all_Done:
  assumes "refresh_all str_of w self = (Done r, f, self')"
  obtains pt brd hero br seated vp self4 where
    "ocr_pot w = Done pt" "ocr_board w = Done brd" "ocr_hero_cards w = Done hero"
    "ocr_bankrolls w = Done (br, seated)" "ocr_vpips w seated = Done vp"
    "track_actions w hero brd (self\<lparr>seated_players := seated, bankrolls := br, vpips := vp,
        positions := ocr_positions w seated\<rparr>) = (Done (), self4)"
    "emit str_of pt brd hero (hand_reset_flag self hero brd) self4 = (r, f, self')"
proof -
  have "\<exists>pt brd hero br seated vp self4.
    ocr_pot w = Done pt \<and> ocr_board w = Done brd \<and> ocr_hero_cards w = Done hero \<and>
    ocr_bankrolls w = Done (br, seated) \<and> ocr_vpips w seated = Done vp \<and>
    track_actions w hero brd (self\<lparr>seated_players := seated, bankrolls := br, vpips := vp,
        positions := ocr_positions w seated\<rparr>) = (Done (), self4) \<and>
    emit str_of pt brd hero (hand_reset_flag self hero brd) self4 = (r, f, self')"
    using assms
    by (auto simp: refresh_all_def Let_def hand_reset_flag_iff split: outcome.splits prod.splits)
  then show ?thesis using that by blast
qed

lemma track_actions_fields:
  assumes "track_actions w hero brd self = (x, self')"
  shows "prev_hash self' = prev_hash self" "seated_players self' = seated_players self"
    "bankrolls self' = bankrolls self" "vpips self' = vpips self" "positions self' = positions self"
    "last_hero_cards self' = last_hero_cards self" "last_board self' = last_board self"
    "state self' = state self"
  using assms
  by (auto simp: track_actions_def Let_def split: if_splits prod.splits outcome.splits)

lemma track_actions_street:
  assumes "track_actions w hero brd self = (Done u, self')"
  shows "last_street_count self' = length brd"
  using assms
  by (auto simp: track_actions_def Let_def split: if_splits prod.splits outcome.splits)

lemma emit_json:
  assumes "emit str_of pt brd hero hr self = (r, f, self')" "r \<noteq> None"
  shows "r = Some (to_json (state self'))"
  using assms by (auto simp: emit_def Let_def split: if_splits)

lemma snapshot_of_cong:
  "bankrolls a = bankrolls b \<Longrightarrow> vpips a = vpips b \<Longrightarrow> positions a = positions b
   \<Longrightarrow> actions a = actions b \<Longrightarrow> bets a = bets b
   \<Longrightarrow> snapshot_of pt brd hero a = snapshot_of pt brd hero b"
  by (simp add: snapshot_of_def)

lemma cycle_summary:
  assumes "refresh_all str_of w self = (Done r, f, self')"
    and "ocr_pot w = Done pt" "ocr_board w = Done brd" "ocr_hero_cards w = Done hero"
  shows "last_hero_cards self' = hero" "last_board self' = brd"
    "last_street_count self' = length brd"
    "prev_hash self' = str_of (snapshot_of pt brd hero self')"
    "f = r"
    "(r \<noteq> None) = (str_of (snapshot_of pt brd hero self') \<noteq> prev_hash self
        \<or> hand_reset_flag self hero brd)"
    "r \<noteq> None \<Longrightarrow> r = Some (to_json (state self'))"
proof -
  from assms(1) obtain pt' brd' hero' br seated vp self4 where
    rd: "ocr_pot w = Done pt'" "ocr_board w = Done brd'" "ocr_hero_cards w = Done hero'"
    and tr: "track_actions w hero' brd' (self\<lparr>seated_players := seated, bankrolls := br, vpips := vp,
        positions := ocr_positions w seated\<rparr>) = (Done (), self4)"
    and em: "emit str_of pt' brd' hero' (hand_reset_flag self hero' brd') self4 = (r, f, self')"
    by (rule refresh_all_Done)
  have eq: "pt' = pt" "brd' = brd" "hero' = hero" using rd assms(2-4) by simp_all
  note em' = em[unfolded eq] and tr' = tr[unfolded eq]
  have snap: "snapshot_of pt brd hero self4 = snapshot_of pt brd hero self'"
    using emit_fields[OF em'] by (intro snapshot_of_cong) simp_all
  show "last_hero_cards self' = hero" "last_board self' = brd" "f = r"
    using emit_fields[OF em'] by simp_all
  show "last_street_count self' = length brd"
    using emit_fields(8)[OF em'] track_actions_street[OF tr'] by simp
  show "prev_hash self' = str_of (snapshot_of pt brd hero self')"
    using emit_fields(11)[OF em'] snap by simp
  show "(r \<noteq> None) = (str_of (snapshot_of pt brd hero self') \<noteq> prev_hash self
        \<or> hand_reset_flag self hero brd)"
    using emit_fields(13)[OF em'] snap track_actions_fields(1)[OF tr'] by simp
  show "r \<noteq> None \<Longrightarrow> r = Some (to_json (state self'))"
    using emit_json[OF em'] by simp
qed

text \<open>
  C2. The classification of a cycle from the hero cards and board it reads and the values
  the object retains: HandReset exactly when hero cards were retained and none are read, or
  a board was retained and none is read, or two hero cards were retained, two are read and
  the two sets differ; otherwise StreetAdvance exactly when the length of the board read
  differs from the recorded street length; otherwise Steady. The retained values are those
  of the last completed cycle: its hero cards, its board and the length of its board.
\<close>

theorem lifecycle_classification:
  "(classify self hero brd = HandReset \<longleftrightarrow>
       (0 < length (last_hero_cards self) \<and> length hero = 0)
     \<or> (0 < length (last_board self) \<and> length brd = 0)
     \<or> (length (last_hero_cards self) = 2 \<and> length hero = 2
          \<and> set hero \<noteq> set (last_hero_cards self)))
   \<and> (classify self hero brd = StreetAdvance \<longleftrightarrow>
         classify self hero brd \<noteq> HandReset \<and> length brd \<noteq> last_street_count self)
   \<and> (classify self hero brd = Steady \<longleftrightarrow>
         classify self hero brd \<noteq> HandReset \<and> classify self hero brd \<noteq> StreetAdvance)
   \<and> (refresh_all str_of w0 self0 = (Done r0, f0, self) \<and> ocr_pot w0 = Done pt0
        \<and> ocr_board w0 = Done brd0 \<and> ocr_hero_cards w0 = Done hero0
       \<longrightarrow> last_hero_cards self = hero0 \<and> last_board self = brd0
           \<and> last_street_count self = length brd0)"
proof -
  have "refresh_all str_of w0 self0 = (Done r0, f0, self) \<and> ocr_pot w0 = Done pt0
        \<and> ocr_board w0 = Done brd0 \<and> ocr_hero_cards w0 = Done hero0
       \<longrightarrow> last_hero_cards self = hero0 \<and> last_board self = brd0
           \<and> last_street_count self = length brd0"
    using cycle_summary(1-3)[of str_of w0 self0 r0 f0 self pt0 brd0 hero0] by blast
  moreover have "classify self hero brd = HandReset \<longleftrightarrow>
       (0 < length (last_hero_cards self) \<and> length hero = 0)
     \<or> (0 < length (last_board self) \<and> length brd = 0)
     \<or> (length (last_hero_cards self) = 2 \<and> length hero = 2
          \<and> set hero \<noteq> set (last_hero_cards self))"
    by (auto simp: classify_HandReset hand_reset_flag_iff)
  moreover have "classify self hero brd = StreetAdvance \<longleftrightarrow>
         classify self hero brd \<noteq> HandReset \<and> length brd \<noteq> last_street_count self"
    by (auto simp: classify_HandReset classify_StreetAdvance)
  moreover have "classify self hero brd = Steady \<longleftrightarrow>
         classify self hero brd \<noteq> HandReset \<and> classify self hero brd \<noteq> StreetAdvance"
    by (cases "classify self hero brd") simp_all
  ultimately show ?thesis by blast
qed

text \<open>
  C7. A completed cycle that is not Steady resets the action of every seated player to
  \<open>--\<close> and the bet to \<open>N/A\<close> and records the length of the board; on StreetAdvance the
  folded-player set is unchanged, on HandReset it is emptied.
\<close>

theorem reset_effects:
  assumes "ocr_board w = Done brd" "ocr_hero_cards w = Done hero"
    and "refresh_all str_of w self = (Done r, f, self')"
    and "classify self hero brd \<noteq> Steady"
  shows "actions self' = dict_of (map (\<lambda>p. (p, dashes)) (seated_players self'))
       \<and> bets self' = dict_of (map (\<lambda>p. (p, NA)) (seated_players self'))
       \<and> (\<forall>p \<in> set (seated_players self').
             map_of (actions self') p = Some dashes \<and> map_of (bets self') p = Some NA)
       \<and> last_street_count self' = length brd
       \<and> (classify self hero brd = StreetAdvance \<longrightarrow> folded_players self' = folded_players self)
       \<and> (classify self hero brd = HandReset \<longrightarrow> folded_players self' = {})"
proof -
  from assms(3) obtain pt' brd' hero' br seated vp self4 where
    rd: "ocr_board w = Done brd'" "ocr_hero_cards w = Done hero'"
    and tr: "track_actions w hero' brd' (self\<lparr>seated_players := seated, bankrolls := br, vpips := vp,
        positions := ocr_positions w seated\<rparr>) = (Done (), self4)"
    and em: "emit str_of pt' brd' hero' (hand_reset_flag self hero' brd') self4 = (r, f, self')"
    by (rule refresh_all_Done)
  have eq: "brd' = brd" "hero' = hero" using rd assms(1,2) by simp_all
  note em' = em[unfolded eq] and tr' = tr[unfolded eq]
  define self3 where "self3 = self\<lparr>seated_players := seated, bankrolls := br, vpips := vp,
        positions := ocr_positions w seated\<rparr>"
  have flag: "hand_reset_flag self3 hero brd = hand_reset_flag self hero brd"
    by (rule hand_reset_flag_cong) (simp_all add: self3_def)
  have cond: "hand_reset_flag self3 hero brd \<or> length brd \<noteq> last_street_count self3"
    using assms(4) flag by (auto simp: classify_Steady self3_def)
  have s4: "self4 = self3\<lparr>actions := dict_of (map (\<lambda>p. (p, dashes)) (seated_players self3)),
                    bets := dict_of (map (\<lambda>p. (p, NA)) (seated_players self3)),
                    folded_players := (if hand_reset_flag self3 hero brd then {} else folded_players self3),
                    last_street_count := length brd\<rparr>"
    using tr' track_actions_reset[OF cond, of w] by (simp add: self3_def)
  have a: "actions self' = dict_of (map (\<lambda>p. (p, dashes)) (seated_players self'))"
    and b: "bets self' = dict_of (map (\<lambda>p. (p, NA)) (seated_players self'))"
    and c: "last_street_count self' = length brd"
    and d: "folded_players self' = (if hand_reset_flag self hero brd then {} else folded_players self)"
    using emit_fields[OF em'] s4 flag by (simp_all add: self3_def)
  have "\<forall>p \<in> set (seated_players self').
             map_of (actions self') p = Some dashes \<and> map_of (bets self') p = Some NA"
    unfolding a b by (simp add: map_of_dict_of_const)
  then show ?thesis
    using a b c d by (simp add: classify_HandReset classify_StreetAdvance)
qed

text \<open>
  C3. For a completed cycle that follows a completed cycle, with \<open>str\<close> injective on
  snapshots: a state is returned exactly when the snapshot differs from the snapshot of the
  previous cycle or the cycle is a HandReset; what is handed to the write of the state file
  is what is returned, and it is the serialised state. In particular a cycle with the same
  snapshot as the previous one and no reset returns \<open>None\<close> and writes nothing.
\<close>

theorem change_detection:
  assumes "inj str_of"
    and "ocr_pot w1 = Done pt1" "ocr_board w1 = Done brd1" "ocr_hero_cards w1 = Done hero1"
    and "refresh_all str_of w1 self0 = (Done r1, f1, self1)"
    and "ocr_pot w2 = Done pt2" "ocr_board w2 = Done brd2" "ocr_hero_cards w2 = Done hero2"
    and "refresh_all str_of w2 self1 = (Done r2, f2, self2)"
  shows "(r2 \<noteq> None \<longleftrightarrow>
            snapshot_of pt2 brd2 hero2 self2 \<noteq> snapshot_of pt1 brd1 hero1 self1
          \<or> classify self1 hero2 brd2 = HandReset)
       \<and> f2 = r2
       \<and> (r2 \<noteq> None \<longrightarrow> r2 = Some (to_json (state self2)))
       \<and> (snapshot_of pt2 brd2 hero2 self2 = snapshot_of pt1 brd1 hero1 self1
            \<and> classify self1 hero2 brd2 \<noteq> HandReset \<longrightarrow> r2 = None \<and> f2 = None)"
proof -
  note c1 = cycle_summary[OF assms(5) assms(2-4)]
  note c2 = cycle_summary[OF assms(9) assms(6-8)]
  have "(r2 \<noteq> None) = (str_of (snapshot_of pt2 brd2 hero2 self2)
            \<noteq> str_of (snapshot_of pt1 brd1 hero1 self1) \<or> hand_reset_flag self1 hero2 brd2)"
    using c2(6) c1(4) by simp
  then have iff: "(r2 \<noteq> None) = (snapshot_of pt2 brd2 hero2 self2 \<noteq> snapshot_of pt1 brd1 hero1 self1
          \<or> classify self1 hero2 brd2 = HandReset)"
    using assms(1) by (simp add: inj_eq classify_HandReset)
  show ?thesis using iff c2(5) c2(7) by auto
qed

section \<open>The folded-player set\<close>

lemma read_dict_keys:
  "read_dict w regs d = Done d' \<Longrightarrow> fst ` set d' \<subseteq> fst ` set regs \<union> fst ` set d"
proof (induction regs arbitrary: d)
  case Nil
  then show ?case by simp
next
  case (Cons a regs)
  obtain p r where a: "a = (p, r)" by (cases a)
  from Cons.prems obtain v where v: "ocr_first w r = Done v"
    and rest: "read_dict w regs (AList.update p v d) = Done d'"
    by (auto simp: a split: outcome.splits)
  from Cons.IH[OF rest] show ?case by (auto simp: a dom_update)
qed

lemma seat_names: "fst ` set (seat_regs mk) = fst ` set (seat_regs BANK)"
  by (simp add: seat_regs_def)

lemma seat_regs_Some: "p \<in> fst ` set (seat_regs BANK) \<Longrightarrow> \<exists>r. map_of (seat_regs mk) p = Some r"
  by (auto simp: seat_regs_def)

lemma bankrolls_seated:
  assumes "ocr_bankrolls w = Done (br, seated)"
  shows "set seated \<subseteq> fst ` set (seat_regs BANK)"
proof (cases "read_dict w (seat_regs BANK) []")
  case Raised
  then show ?thesis using assms by (simp add: ocr_bankrolls_def)
next
  case (Done d)
  then have s: "seated = map fst (filter (\<lambda>pv. snd pv \<noteq> NA) d)"
    using assms by (auto simp add: ocr_bankrolls_def)
  from read_dict_keys[OF Done] show ?thesis unfolding s by auto
qed

lemma actions_loop_mono:
  "actions_loop w ps acts folded = (x, folded') \<Longrightarrow> folded \<subseteq> folded'"
proof (induction ps arbitrary: acts folded)
  case Nil
  then show ?case by simp
next
  case (Cons q ps)
  show ?case
  proof (cases "map_of (seat_regs ACTION) q")
    case None
    then show ?thesis using Cons.prems Cons.IH by simp
  next
    case (Some r)
    show ?thesis
    proof (cases "ocr_text w r")
      case Raised
      then show ?thesis using Cons.prems Some by simp
    next
      case (Done tx)
      from Cons.prems Some Done obtain acts1 folded1 where
        step: "actions_loop w ps acts1 folded1 = (x, folded')" and sub: "folded \<subseteq> folded1"
        by (auto simp: Let_def split: if_splits)
      from Cons.IH[OF step] sub show ?thesis by blast
    qed
  qed
qed

lemma actions_loop_fold:
  assumes "actions_loop w ps acts folded = (Done acts', folded')"
    and "\<forall>q \<in> set ps. map_of (seat_regs ACTION) q \<noteq> None"
    and "p \<in> folded" and "p \<in> set ps \<or> map_of acts p = Some (pstr ''Fold'')"
  shows "map_of acts' p = Some (pstr ''Fold'')"
  using assms
proof (induction ps arbitrary: acts folded)
  case Nil
  then show ?case by simp
next
  case (Cons q ps)
  from Cons.prems(2) obtain r where r: "map_of (seat_regs ACTION) q = Some r" by auto
  from Cons.prems(1) r obtain tx where tx: "ocr_text w r = Done tx"
    by (cases "ocr_text w r") simp_all
  from Cons.prems(1) r tx obtain a folded1 where
    step: "actions_loop w ps (AList.update q a acts) folded1 = (Done acts', folded')"
    and sub: "folded \<subseteq> folded1"
    and a: "q \<in> folded \<longrightarrow> a = pstr ''Fold''"
    by (auto simp: Let_def split: if_splits)
  have "p \<in> folded1" using sub Cons.prems(3) by blast
  moreover have "p \<in> set ps \<or> map_of (AList.update q a acts) p = Some (pstr ''Fold'')"
    using Cons.prems(3,4) a by (auto simp: update_conv')
  ultimately show ?case using Cons.IH[OF step] Cons.prems(2) by simp
qed

lemma actions_loop_reads_fold:
  assumes "actions_loop w ps acts folded = (Done acts', folded')"
    and "p \<in> set ps" and "map_of (seat_regs ACTION) p = Some r" and "text_at w r = Done tx"
    and "contains (lower (join_space tx)) (pstr ''fold'')"
  shows "p \<in> folded'"
  using assms(1,2)
proof (induction ps arbitrary: acts folded)
  case Nil
  then show ?case by simp
next
  case (Cons q ps)
  show ?case
  proof (cases "q = p")
    case True
    from Cons.prems(1) True assms(3-5) obtain acts1 where
      "actions_loop w ps acts1 (insert p folded) = (Done acts', folded')"
      by (auto simp: Let_def ocr_text_def)
    from actions_loop_mono[OF this] show ?thesis by blast
  next
    case False
    then have mem: "p \<in> set ps" using Cons.prems(2) by simp
    show ?thesis
    proof (cases "map_of (seat_regs ACTION) q")
      case None
      then show ?thesis using Cons.prems(1) Cons.IH mem by simp
    next
      case (Some r')
      from Cons.prems(1) Some obtain acts1 folded1 where
        "actions_loop w ps acts1 folded1 = (Done acts', folded')"
        by (cases "ocr_text w r'") (auto simp: Let_def split: if_splits)
      from Cons.IH[OF this mem] show ?thesis .
    qed
  qed
qed

lemma track_actions_folded:
  assumes "track_actions w hero brd self = (x, self')" "\<not> hand_reset_flag self hero brd"
  shows "folded_players self \<subseteq> folded_players self'"
proof (cases "length brd = last_street_count self")
  case False
  then show ?thesis using assms track_actions_reset[of self hero brd w] by auto
next
  case True
  obtain y folded where oa: "ocr_actions w (seated_players self) (folded_players self) = (y, folded)"
    by (cases "ocr_actions w (seated_players self) (folded_players self)")
  then have sub: "folded_players self \<subseteq> folded"
    using actions_loop_mono by (simp add: ocr_actions_def)
  have "folded_players self' = folded"
    using assms(1) track_actions_steady[OF assms(2) True, of w] oa
    by (auto split: outcome.splits)
  then show ?thesis using sub by simp
qed

lemma refresh_all_early_raise:
  "ocr_pot w = Raised \<or> ocr_board w = Raised \<or> ocr_hero_cards w = Raised \<or> ocr_bankrolls w = Raised
   \<Longrightarrow> refresh_all str_of w self = (Raised, None, self)"
  by (auto simp: refresh_all_def split: outcome.splits)

lemma refresh_all_reads:
  assumes "ocr_pot w = Done pt" "ocr_board w = Done brd" "ocr_hero_cards w = Done hero"
    "ocr_bankrolls w = Done (br, seated)"
  shows "refresh_all str_of w self =
    (case ocr_vpips w seated of
       Raised \<Rightarrow> (Raised, None, self\<lparr>seated_players := seated, bankrolls := br\<rparr>)
     | Done vp \<Rightarrow>
        (case track_actions w hero brd (self\<lparr>seated_players := seated, bankrolls := br, vpips := vp,
                positions := ocr_positions w seated\<rparr>) of
           (Raised, self4) \<Rightarrow> (Raised, None, self4)
         | (Done u, self4) \<Rightarrow>
             (case emit str_of pt brd hero (hand_reset_flag self hero brd) self4 of
                (json_state, written, self5) \<Rightarrow> (Done json_state, written, self5))))"
  using assms
  by (simp add: refresh_all_def Let_def hand_reset_flag_iff split: outcome.splits prod.splits)

lemma refresh_all_keeps_folded:
  assumes "p \<in> folded_players self" "cycle_kind w self \<noteq> Some HandReset"
  shows "p \<in> folded_players (snd (snd (refresh_all str_of w self)))"
proof (cases "ocr_pot w = Raised \<or> ocr_board w = Raised \<or> ocr_hero_cards w = Raised
    \<or> ocr_bankrolls w = Raised")
  case True
  then show ?thesis using assms(1) refresh_all_early_raise[of w str_of self] by simp
next
  case False
  then obtain pt brd hero bs where rd0: "ocr_pot w = Done pt" "ocr_board w = Done brd"
      "ocr_hero_cards w = Done hero" "ocr_bankrolls w = Done bs"
    by (metis outcome.exhaust)
  obtain br seated where bs: "bs = (br, seated)" by (cases bs)
  note rd = rd0(1-3) rd0(4)[unfolded bs]
  note ra = refresh_all_reads[OF rd, of str_of self]
  show ?thesis
  proof (cases "ocr_vpips w seated")
    case Raised
    then show ?thesis using assms(1) ra by simp
  next
    case (Done vp)
    define self3 where "self3 = self\<lparr>seated_players := seated, bankrolls := br, vpips := vp,
      positions := ocr_positions w seated\<rparr>"
    have "cycle_kind w self = Some (classify self hero brd)"
      using rd Done by (simp add: cycle_kind_def)
    then have nf: "\<not> hand_reset_flag self hero brd"
      using assms(2) by (simp add: classify_HandReset)
    have flag: "hand_reset_flag self3 hero brd = hand_reset_flag self hero brd"
      by (rule hand_reset_flag_cong) (simp_all add: self3_def)
    obtain x self4 where tr: "track_actions w hero brd self3 = (x, self4)"
      by (cases "track_actions w hero brd self3")
    have "folded_players self3 \<subseteq> folded_players self4"
      using track_actions_folded[OF tr] nf flag by simp
    then have p4: "p \<in> folded_players self4"
      using assms(1) by (auto simp: self3_def)
    show ?thesis
    proof (cases x)
      case Raised
      then have "refresh_all str_of w self = (Raised, None, self4)"
        using ra Done tr by (simp add: self3_def)
      then show ?thesis using p4 by simp
    next
      case (Done u)
      obtain r f self5 where em: "emit str_of pt brd hero (hand_reset_flag self hero brd) self4
        = (r, f, self5)"
        by (cases "emit str_of pt brd hero (hand_reset_flag self hero brd) self4") auto
      have "refresh_all str_of w self = (Done r, f, self5)"
        using ra \<open>ocr_vpips w seated = Done vp\<close> tr Done em by (simp add: self3_def)
      then show ?thesis using p4 emit_fields(7)[OF em] by simp
    qed
  qed
qed

lemma run_keeps_folded:
  "p \<in> folded_players s \<Longrightarrow> no_reset str_of ws s \<Longrightarrow> p \<in> folded_players (run_cycles str_of ws s)"
proof (induction ws arbitrary: s)
  case Nil
  then show ?case by simp
next
  case (Cons w ws)
  from Cons.prems(2) have k: "cycle_kind w s \<noteq> Some HandReset"
    and n: "no_reset str_of ws (snd (snd (refresh_all str_of w s)))" by simp_all
  have "p \<in> folded_players (snd (snd (refresh_all str_of w s)))"
    using Cons.prems(1) k by (rule refresh_all_keeps_folded)
  from Cons.IH[OF this n] show ?case by simp
qed

lemma steady_cycle:
  assumes "refresh_all str_of w self = (Done r, f, self')" "cycle_kind w self = Some Steady"
  obtains acts where
    "actions_loop w (seated_players self') [] (folded_players self) = (Done acts, folded_players self')"
    "actions self' = acts" "set (seated_players self') \<subseteq> fst ` set (seat_regs BANK)"
proof -
  from assms(1) obtain pt brd hero br seated vp self4 where
    rd: "ocr_pot w = Done pt" "ocr_board w = Done brd" "ocr_hero_cards w = Done hero"
      "ocr_bankrolls w = Done (br, seated)" "ocr_vpips w seated = Done vp"
    and tr: "track_actions w hero brd (self\<lparr>seated_players := seated, bankrolls := br, vpips := vp,
        positions := ocr_positions w seated\<rparr>) = (Done (), self4)"
    and em: "emit str_of pt brd hero (hand_reset_flag self hero brd) self4 = (r, f, self')"
    by (rule refresh_all_Done)
  define self3 where "self3 = self\<lparr>seated_players := seated, bankrolls := br, vpips := vp,
        positions := ocr_positions w seated\<rparr>"
  have "classify self hero brd = Steady" using assms(2) rd by (simp add: cycle_kind_def)
  then have st: "\<not> hand_reset_flag self hero brd" "length brd = last_street_count self"
    by (simp_all add: classify_Steady)
  have flag: "hand_reset_flag self3 hero brd = hand_reset_flag self hero brd"
    by (rule hand_reset_flag_cong) (simp_all add: self3_def)
  have st3: "\<not> hand_reset_flag self3 hero brd" "length brd = last_street_count self3"
    using st flag by (simp_all add: self3_def)
  obtain y folded where oa: "ocr_actions w seated (folded_players self) = (y, folded)"
    by (cases "ocr_actions w seated (folded_players self)")
  from tr[folded self3_def] track_actions_steady[OF st3, of w] oa
  obtain acts where y: "y = Done acts" and s4: "actions self4 = acts" "folded_players self4 = folded"
    "seated_players self4 = seated"
    by (auto simp: self3_def split: outcome.splits)
  have "actions_loop w (seated_players self') [] (folded_players self) = (Done acts, folded_players self')"
    using oa y s4 emit_fields[OF em] by (simp add: ocr_actions_def)
  moreover have "actions self' = acts" using s4 emit_fields[OF em] by simp
  moreover have "set (seated_players self') \<subseteq> fst ` set (seat_regs BANK)"
    using bankrolls_seated[OF rd(4)] s4 emit_fields[OF em] by simp
  ultimately show ?thesis using that by blast
qed

text \<open>
  C6. A seat read as folded in a completed Steady cycle is in the folded-player set from then
  on, through any cycles of which none is a HandReset (Steady, StreetAdvance or cut short
  by a read that raises), and in every later completed Steady cycle in which the seat is
  seated its action is \<open>Fold\<close>, whatever text is read for it.
\<close>

theorem sticky_fold:
  assumes "refresh_all str_of w1 s0 = (Done r1, f1, s1)" and "cycle_kind w1 s0 = Some Steady"
    and "p \<in> set (seated_players s1)" and "map_of (seat_regs ACTION) p = Some reg"
    and "text_at w1 reg = Done words" and "contains (lower (join_space words)) (pstr ''fold'')"
    and "no_reset str_of ws s1"
    and "refresh_all str_of w2 (run_cycles str_of ws s1) = (Done r2, f2, s2)"
    and "cycle_kind w2 (run_cycles str_of ws s1) = Some Steady"
    and "p \<in> set (seated_players s2)"
  shows "map_of (actions s2) p = Some (pstr ''Fold'') \<and> p \<in> folded_players s2
         \<and> p \<in> folded_players (run_cycles str_of ws s1)"
proof -
  from steady_cycle[OF assms(1,2)] obtain acts1 where
    a1: "actions_loop w1 (seated_players s1) [] (folded_players s0) = (Done acts1, folded_players s1)"
    by blast
  have p1: "p \<in> folded_players s1"
    using actions_loop_reads_fold[OF a1 assms(3) assms(4) assms(5) assms(6)] .
  have pm: "p \<in> folded_players (run_cycles str_of ws s1)"
    using run_keeps_folded[OF p1 assms(7)] .
  from steady_cycle[OF assms(8,9)] obtain acts2 where
    a2: "actions_loop w2 (seated_players s2) [] (folded_players (run_cycles str_of ws s1))
          = (Done acts2, folded_players s2)"
    and ac: "actions s2 = acts2" and seats: "set (seated_players s2) \<subseteq> fst ` set (seat_regs BANK)"
    by blast
  have regs: "\<forall>q \<in> set (seated_players s2). map_of (seat_regs ACTION) q \<noteq> None"
  proof
    fix q assume "q \<in> set (seated_players s2)"
    then have "q \<in> fst ` set (seat_regs BANK)" using seats by blast
    from seat_regs_Some[OF this, of ACTION] show "map_of (seat_regs ACTION) q \<noteq> None" by auto
  qed
  have "map_of acts2 p = Some (pstr ''Fold'')"
    using actions_loop_fold[OF a2 regs pm] assms(10) by simp
  moreover have "p \<in> folded_players s2" using actions_loop_mono[OF a2] pm by blast
  ultimately show ?thesis using ac pm by simp
qed

section \<open>Cycles on the example screens\<close>

lemma cycle_reads:
  assumes "refresh_all str_of w self = (Done r, f, self')"
    and "ocr_bankrolls w = Done (br, seated)" "ocr_vpips w seated = Done vp"
  shows "seated_players self' = seated" "bankrolls self' = br" "vpips self' = vp"
    "positions self' = ocr_positions w seated"
proof -
  from assms(1) obtain pt brd hero br' seated' vp' self4 where
    rd: "ocr_bankrolls w = Done (br', seated')" "ocr_vpips w seated' = Done vp'"
    and tr: "track_actions w hero brd (self\<lparr>seated_players := seated', bankrolls := br', vpips := vp',
        positions := ocr_positions w seated'\<rparr>) = (Done (), self4)"
    and em: "emit str_of pt brd hero (hand_reset_flag self hero brd) self4 = (r, f, self')"
    by (rule refresh_all_Done)
  have eq: "br' = br" "seated' = seated" using rd(1) assms(2) by simp_all
  have eq2: "vp' = vp" using rd(2) assms(3) eq by simp
  show "seated_players self' = seated" "bankrolls self' = br" "vpips self' = vp"
    "positions self' = ocr_positions w seated"
    using emit_fields[OF em] track_actions_fields[OF tr] eq eq2 by simp_all
qed

lemma actions_loop_total:
  assumes "\<forall>r. text_at w r \<noteq> Raised"
  shows "\<exists>acts' folded'. actions_loop w ps acts folded = (Done acts', folded')"
proof (induction ps arbitrary: acts folded)
  case Nil
  then show ?case by simp
next
  case (Cons q ps)
  show ?case
  proof (cases "map_of (seat_regs ACTION) q")
    case None
    then show ?thesis using Cons.IH by simp
  next
    case (Some r)
    obtain tx where "ocr_text w r = Done tx"
      using assms by (cases "text_at w r") (auto simp: ocr_text_def)
    then show ?thesis using Some Cons.IH by (simp add: Let_def)
  qed
qed

lemma bets_loop_total:
  assumes "\<forall>r. text_at w r \<noteq> Raised" "set ps \<subseteq> fst ` set (seat_regs BANK)"
  shows "\<exists>d'. bets_loop w ps d = Done d'"
  using assms(2)
proof (induction ps arbitrary: d)
  case Nil
  then show ?case by simp
next
  case (Cons q ps)
  then have "q \<in> fst ` set (seat_regs BANK)" by simp
  from seat_regs_Some[OF this, of BET_AMOUNT] obtain r where r: "map_of (seat_regs BET_AMOUNT) q = Some r"
    by blast
  obtain v where "ocr_first w r = Done v"
    using assms(1) by (cases "text_at w r") (auto simp: ocr_first_def ocr_text_def)
  then show ?case using r Cons by simp
qed

lemma cycle_completes:
  assumes "ocr_pot w = Done pt" "ocr_board w = Done brd" "ocr_hero_cards w = Done hero"
    "ocr_bankrolls w = Done (br, seated)" "ocr_vpips w seated = Done vp"
    and "\<forall>r. text_at w r \<noteq> Raised"
  shows "\<exists>r f self'. refresh_all str_of w self = (Done r, f, self')"
proof -
  define self3 where "self3 = self\<lparr>seated_players := seated, bankrolls := br, vpips := vp,
        positions := ocr_positions w seated\<rparr>"
  have "\<exists>self4. track_actions w hero brd self3 = (Done (), self4)"
  proof (cases "hand_reset_flag self3 hero brd \<or> length brd \<noteq> last_street_count self3")
    case True
    from track_actions_reset[OF this, of w] show ?thesis by simp
  next
    case False
    then have st: "\<not> hand_reset_flag self3 hero brd" "length brd = last_street_count self3"
      by simp_all
    obtain acts folded where a: "ocr_actions w (seated_players self3) (folded_players self3)
        = (Done acts, folded)"
      using actions_loop_total[OF assms(6)] unfolding ocr_actions_def by blast
    have "set (seated_players self3) \<subseteq> fst ` set (seat_regs BANK)"
      using bankrolls_seated[OF assms(4)] by (simp add: self3_def)
    then obtain b where b: "ocr_bets w (seated_players self3) = Done b"
      using bets_loop_total[OF assms(6)] unfolding ocr_bets_def by blast
    show ?thesis using track_actions_steady[OF st, of w] a b by simp
  qed
  then obtain self4 where tr: "track_actions w hero brd self3 = (Done (), self4)" by blast
  obtain r f self5 where em: "emit str_of pt brd hero (hand_reset_flag self hero brd) self4
      = (r, f, self5)"
    by (cases "emit str_of pt brd hero (hand_reset_flag self hero brd) self4") auto
  have "refresh_all str_of w self = (Done r, f, self5)"
    using refresh_all_reads[OF assms(1-4), of str_of self] assms(5) tr em
    by (simp add: self3_def)
  then show ?thesis by blast
qed

lemma hero_world_text: "\<forall>r. text_at (table_with_hero a) r \<noteq> Raised"
  by (simp add: table_with_hero_def)

lemma hero_world_pot: "ocr_pot (table_with_hero a) = Done NA"
  by (simp add: ocr_pot_def ocr_text_def table_with_hero_def)

lemma hero_world_board: "ocr_board (table_with_hero a) = Done []"
  by (simp add: ocr_board_def ocr_text_def table_with_hero_def)

lemma hero_world_hero_cards: "ocr_hero_cards (table_with_hero a) = Done []"
  by (simp add: ocr_hero_cards_def hero_card_def ocr_text_def table_with_hero_def)

lemma hero_world_bankrolls:
  "\<exists>br. ocr_bankrolls (table_with_hero a) = Done (br, [pstr ''Hero''])"
  by (simp add: ocr_bankrolls_def seat_regs_def ocr_first_def ocr_text_def table_with_hero_def
      NA_def pstr_eq_iff)

lemma hero_world_vpips:
  "ocr_vpips (table_with_hero a) [pstr ''Hero''] = Done [(pstr ''Hero'', NA @ pstr ''%'')]"
  by (simp add: ocr_vpips_def seat_regs_def ocr_first_def ocr_text_def table_with_hero_def
      pstr_eq_iff)

lemma steady_cycle_bets:
  assumes "refresh_all str_of w self = (Done r, f, self')" "cycle_kind w self = Some Steady"
  shows "ocr_bets w (seated_players self') = Done (bets self')"
proof -
  from assms(1) obtain pt brd hero br seated vp self4 where
    rd: "ocr_pot w = Done pt" "ocr_board w = Done brd" "ocr_hero_cards w = Done hero"
      "ocr_bankrolls w = Done (br, seated)" "ocr_vpips w seated = Done vp"
    and tr: "track_actions w hero brd (self\<lparr>seated_players := seated, bankrolls := br, vpips := vp,
        positions := ocr_positions w seated\<rparr>) = (Done (), self4)"
    and em: "emit str_of pt brd hero (hand_reset_flag self hero brd) self4 = (r, f, self')"
    by (rule refresh_all_Done)
  define self3 where "self3 = self\<lparr>seated_players := seated, bankrolls := br, vpips := vp,
        positions := ocr_positions w seated\<rparr>"
  have "classify self hero brd = Steady" using assms(2) rd by (simp add: cycle_kind_def)
  then have st: "\<not> hand_reset_flag self hero brd" "length brd = last_street_count self"
    by (simp_all add: classify_Steady)
  have flag: "hand_reset_flag self3 hero brd = hand_reset_flag self hero brd"
    by (rule hand_reset_flag_cong) (simp_all add: self3_def)
  have st3: "\<not> hand_reset_flag self3 hero brd" "length brd = last_street_count self3"
    using st flag by (simp_all add: self3_def)
  from tr[folded self3_def] track_actions_steady[OF st3, of w]
  have "ocr_bets w seated = Done (bets self4)" "seated_players self4 = seated"
    by (auto simp: self3_def split: outcome.splits prod.splits)
  then show ?thesis using emit_fields[OF em] by simp
qed

lemma hero_world_cycle:
  assumes "last_hero_cards self = []" "last_board self = []" "last_street_count self = 0"
  shows "\<exists>r f self'. refresh_all str_of (table_with_hero a) self = (Done r, f, self')
      \<and> cycle_kind (table_with_hero a) self = Some Steady
      \<and> seated_players self' = [pstr ''Hero'']
      \<and> last_hero_cards self' = [] \<and> last_board self' = [] \<and> last_street_count self' = 0"
proof -
  let ?w = "table_with_hero a"
  obtain br where br: "ocr_bankrolls ?w = Done (br, [pstr ''Hero''])"
    using hero_world_bankrolls by blast
  note rd = hero_world_pot[of a] hero_world_board[of a] hero_world_hero_cards[of a] br
    hero_world_vpips[of a]
  from cycle_completes[OF rd hero_world_text, of str_of self]
  obtain r f self' where c: "refresh_all str_of ?w self = (Done r, f, self')" by blast
  have "classify self [] [] = Steady"
    using assms by (simp add: classify_Steady hand_reset_flag_iff)
  then have k: "cycle_kind ?w self = Some Steady"
    using rd by (simp add: cycle_kind_def)
  show ?thesis
    using c k cycle_reads(1)[OF c br hero_world_vpips] cycle_summary(1-3)[OF c rd(1-3)]
    by simp
qed

lemma hero_world_actions:
  "actions_loop (table_with_hero (pstr ''Call'')) [pstr ''Hero''] [] folded
     = (Done [(pstr ''Hero'', if pstr ''Hero'' \<in> folded then pstr ''Fold'' else pstr ''Call'')], folded)"
proof -
  have r: "map_of (seat_regs ACTION) (pstr ''Hero'') = Some (ACTION 1)"
    by (simp add: seat_regs_def)
  have w: "lower (pstr ''Call'') = pstr ''call''"
    by (simp add: lower_def lower_char_def pstr_def)
  have c: "\<not> contains (pstr ''call'') (pstr ''fold'')" "\<not> contains (pstr ''call'') (pstr ''raise'')"
    "contains (pstr ''call'') (pstr ''call'')"
    by (simp_all add: pstr_def startswith_def)
  show ?thesis by (simp add: r ocr_text_def table_with_hero_def Let_def w c)
qed

lemma fold_text: "contains (lower (join_space [pstr ''Fold''])) (pstr ''fold'')"
  by (simp add: lower_def lower_char_def pstr_def startswith_def)

lemma init_fields:
  "last_hero_cards (OCR_init g) = []" "last_board (OCR_init g) = []"
  "last_street_count (OCR_init g) = 0" "folded_players (OCR_init g) = {}"
  by (simp_all add: OCR_init_def)

theorem lifecycle_classification_witness:
  "classify (run_cycles str_example [table_with_hero (pstr ''Call'')] (OCR_init GameState_init))
     [] [] = Steady"
proof -
  let ?w = "table_with_hero (pstr ''Call'')" and ?s0 = "OCR_init GameState_init"
  from hero_world_cycle[OF init_fields(1-3), of str_example "pstr ''Call''" GameState_init]
  obtain r f s1 where c: "refresh_all str_example ?w ?s0 = (Done r, f, s1)" by blast
  have s1: "run_cycles str_example [?w] ?s0 = s1" using c by simp
  have "last_hero_cards s1 = [] \<and> last_board s1 = [] \<and> last_street_count s1 = length ([]::pystr list)"
    using lifecycle_classification[of s1 "[]" "[]" str_example ?w ?s0 r f NA "[]" "[]"]
      c hero_world_pot hero_world_board hero_world_hero_cards by blast
  then show ?thesis
    using lifecycle_classification[of s1 "[]" "[]" str_example ?w ?s0 r f NA "[]" "[]"] s1
    by (cases "classify s1 [] []") auto
qed

theorem sticky_fold_witness:
  "map_of (actions (run_cycles str_example
       [table_with_hero (pstr ''Fold''), table_with_hero (pstr ''Call'')]
       (OCR_init GameState_init))) (pstr ''Hero'') = Some (pstr ''Fold'')"
proof -
  let ?w1 = "table_with_hero (pstr ''Fold'')" and ?w2 = "table_with_hero (pstr ''Call'')"
  let ?s0 = "OCR_init GameState_init"
  from hero_world_cycle[OF init_fields(1-3), of str_example "pstr ''Fold''" GameState_init]
  obtain r1 f1 s1 where c1: "refresh_all str_example ?w1 ?s0 = (Done r1, f1, s1)"
    and k1: "cycle_kind ?w1 ?s0 = Some Steady" and p1: "seated_players s1 = [pstr ''Hero'']"
    and l1: "last_hero_cards s1 = []" "last_board s1 = []" "last_street_count s1 = 0"
    by blast
  from hero_world_cycle[OF l1, of str_example "pstr ''Call''"]
  obtain r2 f2 s2 where c2: "refresh_all str_example ?w2 s1 = (Done r2, f2, s2)"
    and k2: "cycle_kind ?w2 s1 = Some Steady" and p2: "seated_players s2 = [pstr ''Hero'']"
    by blast
  have reg: "map_of (seat_regs ACTION) (pstr ''Hero'') = Some (ACTION 1)"
    by (simp add: seat_regs_def)
  have tx: "text_at ?w1 (ACTION 1) = Done [pstr ''Fold'']"
    by (simp add: table_with_hero_def)
  have run: "run_cycles str_example [] s1 = s1" by simp
  have "map_of (actions s2) (pstr ''Hero'') = Some (pstr ''Fold'')"
    using sticky_fold[of str_example ?w1 ?s0 r1 f1 s1 "pstr ''Hero''" "ACTION 1" "[pstr ''Fold'']"
        "[]" ?w2 r2 f2 s2] c1 k1 p1 reg tx fold_text c2 k2 p2
    by simp
  moreover have "run_cycles str_example [?w1, ?w2] ?s0 = s2" using c1 c2 by simp
  ultimately show ?thesis by simp
qed

lemma inj_str_example: "inj str_example"
  by (simp add: inj_def str_example_def)

theorem change_detection_witness:
  "inj str_example
   \<and> fst (refresh_all str_example (table_with_hero (pstr ''Call''))
        (run_cycles str_example [table_with_hero (pstr ''Call'')] (OCR_init GameState_init)))
     = Done None"
proof -
  let ?w = "table_with_hero (pstr ''Call'')" and ?s0 = "OCR_init GameState_init"
  obtain br where br: "ocr_bankrolls ?w = Done (br, [pstr ''Hero''])"
    using hero_world_bankrolls by blast
  from hero_world_cycle[OF init_fields(1-3), of str_example "pstr ''Call''" GameState_init]
  obtain r1 f1 s1 where c1: "refresh_all str_example ?w ?s0 = (Done r1, f1, s1)"
    and k1: "cycle_kind ?w ?s0 = Some Steady" and p1: "seated_players s1 = [pstr ''Hero'']"
    and l1: "last_hero_cards s1 = []" "last_board s1 = []" "last_street_count s1 = 0"
    by blast
  from hero_world_cycle[OF l1, of str_example "pstr ''Call''"]
  obtain r2 f2 s2 where c2: "refresh_all str_example ?w s1 = (Done r2, f2, s2)"
    and k2: "cycle_kind ?w s1 = Some Steady" and p2: "seated_players s2 = [pstr ''Hero'']"
    by blast
  from steady_cycle[OF c1 k1] obtain acts1 where
    a1: "actions_loop ?w (seated_players s1) [] (folded_players ?s0) = (Done acts1, folded_players s1)"
      "actions s1 = acts1" by blast
  have "actions_loop ?w [pstr ''Hero''] [] {} = (Done acts1, folded_players s1)"
    using a1(1) by (simp only: p1 init_fields)
  then have f1: "folded_players s1 = {}" and ac1: "actions s1 = [(pstr ''Hero'', pstr ''Call'')]"
    using a1(2) by (simp_all only: hero_world_actions) simp_all
  from steady_cycle[OF c2 k2] obtain acts2 where
    a2: "actions_loop ?w (seated_players s2) [] (folded_players s1) = (Done acts2, folded_players s2)"
      "actions s2 = acts2" by blast
  have "actions_loop ?w [pstr ''Hero''] [] {} = (Done acts2, folded_players s2)"
    using a2(1) by (simp only: p2 f1)
  then have ac2: "actions s2 = [(pstr ''Hero'', pstr ''Call'')]"
    using a2(2) by (simp only: hero_world_actions) simp
  have bt: "bets s2 = bets s1"
    using steady_cycle_bets[OF c1 k1] steady_cycle_bets[OF c2 k2] by (simp add: p1 p2)
  have snap: "snapshot_of NA [] [] s2 = snapshot_of NA [] [] s1"
    using cycle_reads[OF c1 br hero_world_vpips] cycle_reads[OF c2 br hero_world_vpips] ac1 ac2 bt
    by (intro snapshot_of_cong) simp_all
  have nr: "classify s1 [] [] \<noteq> HandReset"
    using l1 by (simp add: classify_HandReset hand_reset_flag_iff)
  have "r2 = None"
    using change_detection[OF inj_str_example hero_world_pot hero_world_board
        hero_world_hero_cards c1 hero_world_pot hero_world_board hero_world_hero_cards c2]
      snap nr by blast
  moreover have "run_cycles str_example [?w] ?s0 = s1" using c1 by simp
  ultimately show ?thesis using c2 inj_str_example by simp
qed

theorem reset_effects_witness:
  "folded_players (run_cycles str_example [table_with_hero (pstr ''Call'')]
      ((OCR_init GameState_init)\<lparr>folded_players := {pstr ''Hero''}, last_street_count := 3,
         last_board := [pstr ''A'' @ [spade], pstr ''K'' @ [club], pstr ''Q'' @ [diamond]]\<rparr>)) = {}
   \<and> map_of (actions (run_cycles str_example [table_with_hero (pstr ''Call'')]
      ((OCR_init GameState_init)\<lparr>folded_players := {pstr ''Hero''}, last_street_count := 3,
         last_board := [pstr ''A'' @ [spade], pstr ''K'' @ [club], pstr ''Q'' @ [diamond]]\<rparr>)))
       (pstr ''Hero'') = Some dashes"
proof -
  let ?w = "table_with_hero (pstr ''Call'')"
  let ?s0 = "(OCR_init GameState_init)\<lparr>folded_players := {pstr ''Hero''}, last_street_count := 3,
         last_board := [pstr ''A'' @ [spade], pstr ''K'' @ [club], pstr ''Q'' @ [diamond]]\<rparr>"
  obtain br where br: "ocr_bankrolls ?w = Done (br, [pstr ''Hero''])"
    using hero_world_bankrolls by blast
  from cycle_completes[OF hero_world_pot hero_world_board hero_world_hero_cards br
      hero_world_vpips hero_world_text, of str_example ?s0]
  obtain r f s1 where c: "refresh_all str_example ?w ?s0 = (Done r, f, s1)" by blast
  have k: "classify ?s0 [] [] = HandReset"
    by (simp add: classify_HandReset hand_reset_flag_iff)
  have seated: "seated_players s1 = [pstr ''Hero'']"
    using cycle_reads(1)[OF c br hero_world_vpips] .
  have ne: "classify ?s0 [] [] \<noteq> Steady" using k by simp
  note re = reset_effects[OF hero_world_board hero_world_hero_cards c ne]
  from re have "\<forall>p \<in> set (seated_players s1).
      map_of (actions s1) p = Some dashes \<and> map_of (bets s1) p = Some NA" by blast
  then have a: "map_of (actions s1) (pstr ''Hero'') = Some dashes" unfolding seated by simp
  from re k have "folded_players s1 = {}" by blast
  with a have "folded_players s1 = {} \<and> map_of (actions s1) (pstr ''Hero'') = Some dashes"
    by blast
  moreover have "run_cycles str_example [?w] ?s0 = s1" using c by simp
  ultimately show ?thesis by simp
qed

text \<open>
  C9. Two players are seated and the position capture raises for both. Each distance is
  then infinite, the dictionary of distances is not empty, the first seated player is taken
  as the button, and the positions are BTN and SB: not \<open>--\<close> for every seat, as the
  fallback of \<open>_positions\<close> would give. The cycle itself goes on.
\<close>

theorem positions_all_captures_fail:
  "ocr_positions \<lparr>text_at = (\<lambda>r. Done []), colour_at = (\<lambda>r. Raised)\<rparr>
       [pstr ''Hero'', pstr ''Player 2'']
     = [(pstr ''Hero'', pstr ''BTN''), (pstr ''Player 2'', pstr ''SB'')]"
proof -
  let ?w = "\<lparr>text_at = (\<lambda>r. Done []), colour_at = (\<lambda>r. Raised)\<rparr>"
  have d: "position_dist ?w (pstr ''Hero'') = None" "position_dist ?w (pstr ''Player 2'') = None"
    by (simp_all add: position_dist_def seat_regs_def pstr_eq_iff)
  have ne: "pstr ''Player 2'' \<noteq> pstr ''Hero''" by (simp add: pstr_eq_iff)
  show ?thesis
    using ne by (simp add: ocr_positions_def dict_of_def d Let_def position_labels_def)
qed

end
